theory Spec2Isabelle
  imports Complex_Main "HOL-Library.Sublist"
begin

section \<open>Example 6 (Poisson equation with a KAN): the notebook as a HOL program\<close>

text \<open>
  The notebook \<^verbatim>\<open>docs/.ipynb_checkpoints/Example_6_PDE_-checkpoint.ipynb\<close> is a flat
  script over three external libraries (torch, kan, tqdm). Its own code is embedded
  here line by line. Tensors of floats are nested lists of reals (the arithmetic is the
  exact one, rounding is not modelled); a Python exception is the left summand of a
  sum type; the module-level globals the code assigns are fields of a record that is
  passed along; what the external libraries compute is a parameter (a record of
  functions), since their code is not part of the notebook.
\<close>

subsection \<open>Exceptions\<close>

datatype 'e exn =
    LibraryError 'e       \<comment> \<open>whatever an operation of kan, torch.autograd or the optimizer raises\<close>
  | TorchIndexError       \<comment> \<open>torch: index out of range for a dimension\<close>
  | TorchShapeError       \<comment> \<open>torch: sizes of tensors must match\<close>
  | NameError string      \<comment> \<open>Python: a global name read before its first assignment\<close>

definition bindE :: "'x + 'a \<Rightarrow> ('a \<Rightarrow> 'x + 'b) \<Rightarrow> 'x + 'b" where
  "bindE r f = (case r of Inl e \<Rightarrow> Inl e | Inr a \<Rightarrow> f a)"

fun mapE :: "('a \<Rightarrow> 'x + 'b) \<Rightarrow> 'a list \<Rightarrow> 'x + 'b list" where
  "mapE f [] = Inr []"
| "mapE f (x # xs) = bindE (f x) (\<lambda>y. bindE (mapE f xs) (\<lambda>ys. Inr (y # ys)))"

subsection \<open>The tensor operations the notebook calls\<close>

type_synonym tensor1 = "real list"
type_synonym tensor2 = "real list list"
type_synonym tensor3 = "real list list list"

definition linspace :: "real \<Rightarrow> real \<Rightarrow> nat \<Rightarrow> tensor1" where
  \<comment> \<open>\<^verbatim>\<open>torch.linspace(start, end, steps)\<close>\<close>
  "linspace a b n = map (\<lambda>i. a + (b - a) * real i / real (n - 1)) [0..<n]"

definition meshgrid_ij :: "tensor1 \<Rightarrow> tensor1 \<Rightarrow> tensor2 \<times> tensor2" where
  \<comment> \<open>\<^verbatim>\<open>torch.meshgrid(x, y, indexing="ij")\<close>: \<open>X[i][j] = x[i]\<close>, \<open>Y[i][j] = y[j]\<close>\<close>
  "meshgrid_ij xs ys = (map (\<lambda>x. map (\<lambda>y. x) ys) xs, map (\<lambda>x. ys) xs)"

definition index :: "'a list \<Rightarrow> int \<Rightarrow> 'e exn + 'a" where
  \<comment> \<open>\<^verbatim>\<open>t[i]\<close>: a negative index counts from the end\<close>
  "index xs i =
     (if 0 \<le> i \<and> i < int (length xs) then Inr (xs ! nat i)
      else if i < 0 \<and> - i \<le> int (length xs) then Inr (xs ! nat (int (length xs) + i))
      else Inl TorchIndexError)"

definition column :: "'a list list \<Rightarrow> int \<Rightarrow> 'e exn + 'a list" where
  \<comment> \<open>\<^verbatim>\<open>t[:, j]\<close>\<close>
  "column t j = mapE (\<lambda>row. index row j) t"

definition columns :: "tensor2 \<Rightarrow> int \<Rightarrow> 'e exn + tensor2" where
  \<comment> \<open>\<^verbatim>\<open>t[:, [j]]\<close>: the column kept as a dimension of size one\<close>
  "columns t j = mapE (\<lambda>row. bindE (index row j) (\<lambda>v. Inr [v])) t"

definition stack2 :: "tensor1 \<Rightarrow> tensor1 \<Rightarrow> 'e exn + tensor2" where
  \<comment> \<open>\<^verbatim>\<open>torch.stack([a, b])\<close>\<close>
  "stack2 a b = (if length a = length b then Inr [a, b] else Inl TorchShapeError)"

definition permute10 :: "tensor2 \<Rightarrow> tensor2" where
  \<comment> \<open>\<^verbatim>\<open>t.permute(1,0)\<close>\<close>
  "permute10 t = transpose t"

definition permute102 :: "tensor3 \<Rightarrow> tensor3" where
  \<comment> \<open>\<^verbatim>\<open>t.permute(1,0,2)\<close>\<close>
  "permute102 t = transpose t"

definition cat4 :: "tensor2 \<Rightarrow> tensor2 \<Rightarrow> tensor2 \<Rightarrow> tensor2 \<Rightarrow> tensor2" where
  \<comment> \<open>\<^verbatim>\<open>torch.cat([a, b, c, d], dim=0)\<close>\<close>
  "cat4 a b c d = a @ b @ c @ d"

definition broadcast1 :: "(real \<Rightarrow> real \<Rightarrow> real) \<Rightarrow> tensor1 \<Rightarrow> tensor1 \<Rightarrow> 'e exn + tensor1" where
  "broadcast1 f a b =
     (if length a = length b then Inr (map2 f a b)
      else if length a = 1 then Inr (map (\<lambda>y. f (hd a) y) b)
      else if length b = 1 then Inr (map (\<lambda>x. f x (hd b)) a)
      else Inl TorchShapeError)"

definition broadcast2 :: "(real \<Rightarrow> real \<Rightarrow> real) \<Rightarrow> tensor2 \<Rightarrow> tensor2 \<Rightarrow> 'e exn + tensor2" where
  \<comment> \<open>an elementwise binary operation on two-dimensional tensors, with torch's broadcasting
      of a dimension of size one\<close>
  "broadcast2 f a b =
     (if length a = length b then mapE (\<lambda>(r, r'). broadcast1 f r r') (zip a b)
      else if length a = 1 then mapE (\<lambda>r'. broadcast1 f (hd a) r') b
      else if length b = 1 then mapE (\<lambda>r. broadcast1 f r (hd b)) a
      else Inl TorchShapeError)"

definition tsub :: "tensor2 \<Rightarrow> tensor2 \<Rightarrow> 'e exn + tensor2" where
  "tsub = broadcast2 (\<lambda>x y. x - y)"

definition tmul :: "tensor2 \<Rightarrow> tensor2 \<Rightarrow> 'e exn + tensor2" where
  "tmul = broadcast2 (\<lambda>x y. x * y)"

definition tmap :: "(real \<Rightarrow> real) \<Rightarrow> tensor2 \<Rightarrow> tensor2" where
  "tmap f t = map (map f) t"

definition tsquare :: "tensor2 \<Rightarrow> tensor2" where
  \<comment> \<open>\<^verbatim>\<open>t**2\<close>\<close>
  "tsquare t = tmap (\<lambda>v. v ^ 2) t"

definition tmean :: "tensor2 \<Rightarrow> real" where
  \<comment> \<open>\<^verbatim>\<open>torch.mean(t)\<close>, over all elements. Of an empty tensor torch returns nan; here the
      quotient by zero is 0.\<close>
  "tmean t = sum_list (concat t) / real (length (concat t))"

definition sum_dim0 :: "tensor2 \<Rightarrow> tensor1" where
  \<comment> \<open>\<^verbatim>\<open>t.sum(dim=0)\<close>\<close>
  "sum_dim0 t = map sum_list (transpose t)"

definition diagonal12 :: "tensor3 \<Rightarrow> tensor2" where
  \<comment> \<open>\<^verbatim>\<open>torch.diagonal(t, dim1=1, dim2=2)\<close>\<close>
  "diagonal12 t =
     map (\<lambda>h. map (\<lambda>i. h ! i ! i) [0..<(case h of [] \<Rightarrow> 0 | r # _ \<Rightarrow> min (length h) (length r))]) t"

definition sum_dim1_keepdim :: "tensor2 \<Rightarrow> tensor2" where
  \<comment> \<open>\<^verbatim>\<open>torch.sum(t, dim=1, keepdim=True)\<close>\<close>
  "sum_dim1_keepdim t = map (\<lambda>r. [sum_list r]) t"

subsection \<open>Constants of the first cell\<close>

definition dim :: nat where "dim = 2"
definition np_i :: nat where "np_i = 21"
definition np_b :: nat where "np_b = 21"
definition ranges :: "real list" where "ranges = [-1, 1]"
definition steps :: nat where "steps = 20"
definition alpha :: real where "alpha = 0.1"
definition log' :: nat where "log' = 1"   \<comment> \<open>the notebook's \<^verbatim>\<open>log\<close>\<close>
definition sampling_mode :: string where "sampling_mode = ''random''"

definition sol_fun :: "tensor2 \<Rightarrow> 'e exn + tensor2" where
  "sol_fun x =
     bindE (columns x 0) (\<lambda>x0. bindE (columns x 1) (\<lambda>x1.
       tmul (tmap sin (tmap (\<lambda>v. pi * v) x0)) (tmap sin (tmap (\<lambda>v. pi * v) x1))))"

definition source_fun :: "tensor2 \<Rightarrow> 'e exn + tensor2" where
  "source_fun x =
     bindE (columns x 0) (\<lambda>x0. bindE (columns x 1) (\<lambda>x1.
       tmul (tmap (\<lambda>v. (- 2 * pi ^ 2) * v) (tmap sin (tmap (\<lambda>v. pi * v) x0)))
            (tmap sin (tmap (\<lambda>v. pi * v) x1))))"

subsection \<open>Sampling\<close>

definition x_mesh :: tensor1 where "x_mesh = linspace (ranges ! 0) (ranges ! 1) np_i"
definition y_mesh :: tensor1 where "y_mesh = linspace (ranges ! 0) (ranges ! 1) np_i"
definition X :: tensor2 where "X = fst (meshgrid_ij x_mesh y_mesh)"
definition Y :: tensor2 where "Y = snd (meshgrid_ij x_mesh y_mesh)"

definition helper :: "tensor1 \<Rightarrow> tensor1 \<Rightarrow> 'e exn + tensor2" where
  \<comment> \<open>on one-dimensional arguments \<^verbatim>\<open>reshape(-1,)\<close> changes nothing\<close>
  "helper a b = bindE (stack2 a b) (\<lambda>t. Inr (permute10 t))"

definition xb1 :: "'e exn + tensor2" where
  "xb1 = bindE (index X 0) (\<lambda>a. bindE (index Y 0) (\<lambda>b. helper a b))"
definition xb2 :: "'e exn + tensor2" where
  "xb2 = bindE (index X (- 1)) (\<lambda>a. bindE (index Y 0) (\<lambda>b. helper a b))"
definition xb3 :: "'e exn + tensor2" where
  "xb3 = bindE (column X 0) (\<lambda>a. bindE (column Y 0) (\<lambda>b. helper a b))"
definition xb4 :: "'e exn + tensor2" where
  "xb4 = bindE (column X 0) (\<lambda>a. bindE (column Y (- 1)) (\<lambda>b. helper a b))"

definition boundary :: "'e exn + tensor2" where
  \<comment> \<open>the value assigned to \<^verbatim>\<open>x_b\<close>\<close>
  "boundary = bindE xb1 (\<lambda>b1. bindE xb2 (\<lambda>b2. bindE xb3 (\<lambda>b3. bindE xb4 (\<lambda>b4.
           Inr (cat4 b1 b2 b3 b4)))))"

text \<open>The four edges of the square, as the specification names them.\<close>

definition edge_x :: "real \<Rightarrow> tensor2" where
  "edge_x c = map (\<lambda>j. [c, - 1 + real j / 10]) [0..<21]"

definition edge_y :: "real \<Rightarrow> tensor2" where
  "edge_y c = map (\<lambda>i. [- 1 + real i / 10, c]) [0..<21]"

definition grid_point :: "nat \<times> nat \<Rightarrow> real list" where
  \<comment> \<open>the point of the mesh with indices \<open>(i, j)\<close>\<close>
  "grid_point ij = [- 1 + real (fst ij) / 10, - 1 + real (snd ij) / 10]"

definition boundary_indices :: "(nat \<times> nat) list" where
  "boundary_indices =
     map (\<lambda>j. (0, j)) [0..<21] @ map (\<lambda>j. (20, j)) [0..<21]
     @ map (\<lambda>i. (i, 0)) [0..<21] @ map (\<lambda>i. (i, 20)) [0..<21]"

definition on_boundary :: "real list \<Rightarrow> bool" where
  "on_boundary p = (length p = 2 \<and> (p ! 0 = - 1 \<or> p ! 0 = 1 \<or> p ! 1 = - 1 \<or> p ! 1 = 1))"


subsection \<open>The external libraries\<close>

text \<open>
  The code of kan (\<^verbatim>\<open>KAN\<close>, \<^verbatim>\<open>LBFGS\<close>), of torch's random generator and of
  \<^verbatim>\<open>autograd.functional.jacobian\<close> is not part of the notebook: what these operations
  return is a parameter. \<open>'m\<close> is the state of the model object (parameters, grids,
  gradient buffers), \<open>'o\<close> the state of an optimizer object, \<open>'e\<close> the exceptions a
  library can raise. An operation that mutates the model returns its new state.

  Two operations are called with a function of the notebook and call it back.
  \<open>jacobian L f x\<close> returns the tensors on which it calls \<open>f\<close>, in order, and then either
  the exception it raises itself or the tensor of derivatives. \<open>step L opt cl m\<close> returns
  the states of the model at which it calls the closure, in order, and then either the
  exception it raises itself or the final states of model and optimizer. Neither has a
  handler around the calls it makes: an exception of the function ends the operation, and
  what the operation would have returned is not looked at.
\<close>

record ('m, 'o, 'f, 'v, 'e) library =
  KAN :: "'e + 'm"
    \<comment> \<open>\<^verbatim>\<open>KAN(width=[2,2,1], grid=5, k=3, grid_eps=1.0, noise_scale_base=0.25)\<close>\<close>
  rand :: "nat \<Rightarrow> nat \<Rightarrow> 'e + tensor2"
    \<comment> \<open>\<^verbatim>\<open>torch.rand((r, c))\<close>\<close>
  forward :: "'m \<Rightarrow> tensor2 \<Rightarrow> 'e + tensor2"
    \<comment> \<open>\<^verbatim>\<open>model(x)\<close>\<close>
  jacobian :: "(tensor2 \<Rightarrow> 'e exn + tensor1) \<Rightarrow> tensor2 \<Rightarrow> tensor2 list \<times> ('e + tensor3)"
    \<comment> \<open>\<^verbatim>\<open>autograd.functional.jacobian(f, x, create_graph=True)\<close>\<close>
  LBFGS :: "'m \<Rightarrow> 'e + 'o"
    \<comment> \<open>\<^verbatim>\<open>LBFGS(model.parameters(), lr=1, history_size=10, line_search_fn="strong_wolfe",
        tolerance_grad=1e-32, tolerance_change=1e-32, tolerance_ys=1e-32)\<close>\<close>
  zero_grad :: "'m \<Rightarrow> 'e + 'm"
    \<comment> \<open>\<^verbatim>\<open>optimizer.zero_grad()\<close>\<close>
  backward :: "'m \<Rightarrow> real \<Rightarrow> 'e + 'm"
    \<comment> \<open>\<^verbatim>\<open>loss.backward()\<close>\<close>
  step :: "'o \<Rightarrow> ('m \<Rightarrow> ('e exn + real) \<times> 'm) \<Rightarrow> 'm \<Rightarrow> 'm list \<times> ('e + 'm \<times> 'o)"
    \<comment> \<open>\<^verbatim>\<open>optimizer.step(closure)\<close>\<close>
  update_grid_from_samples :: "'m \<Rightarrow> tensor2 \<Rightarrow> 'e + 'm"
    \<comment> \<open>\<^verbatim>\<open>model.update_grid_from_samples(x)\<close>\<close>
  plot :: "'m \<Rightarrow> nat \<Rightarrow> 'e + unit"
    \<comment> \<open>\<^verbatim>\<open>model.plot(beta=b)\<close>\<close>
  fix_symbolic :: "'m \<Rightarrow> nat \<Rightarrow> nat \<Rightarrow> nat \<Rightarrow> string \<Rightarrow> 'e + 'm"
    \<comment> \<open>\<^verbatim>\<open>model.fix_symbolic(l, i, j, name)\<close>\<close>
  symbolic_formula :: "'m \<Rightarrow> nat \<Rightarrow> 'e + 'f \<times> 'v"
    \<comment> \<open>\<^verbatim>\<open>model.symbolic_formula(floating_digit=d)\<close>\<close>

subsection \<open>Globals, the trace of library calls, and programs\<close>

record ('m, 'f, 'v) globals =
  model :: 'm
  x_i :: tensor2
  x_b :: tensor2
  pde_loss :: "real option"    \<comment> \<open>\<open>None\<close>: the name is not bound yet\<close>
  bc_loss :: "real option"
  formula :: "'f option"
  var :: "'v option"

text \<open>
  The trace records, in order, every call into a library (with the tensor it is given;
  for \<^verbatim>\<open>optimizer.step\<close>, with the state of the optimizer object it is called on), those
  made while a library operation calls a function of the notebook back included, the start
  of every iteration of the loop of \<^verbatim>\<open>fit\<close>, and the exception that ends the run. It is
  written, never read.
\<close>

datatype ('o, 'e) event =
    Call_KAN
  | Call_rand nat nat
  | Call_LBFGS
  | Iteration nat
  | Call_update_grid tensor2
  | Call_step 'o
  | Call_zero_grad
  | Call_jacobian tensor2
  | Call_model tensor2
  | Call_backward
  | Call_set_description real real real
  | Call_plot
  | Call_fix_symbolic nat nat nat string
  | Call_symbolic_formula
  | Raised "'e exn"

type_synonym ('a, 's, 'o, 'e) prog =
  "'s \<times> ('o, 'e) event list \<Rightarrow> ('e exn + 'a) \<times> 's \<times> ('o, 'e) event list"

definition ret :: "'a \<Rightarrow> ('a, 's, 'o, 'e) prog" where
  "ret a = (\<lambda>(g, tr). (Inr a, g, tr))"

definition bindP :: "('a, 's, 'o, 'e) prog \<Rightarrow> ('a \<Rightarrow> ('b, 's, 'o, 'e) prog) \<Rightarrow> ('b, 's, 'o, 'e) prog" where
  "bindP p f = (\<lambda>c. case p c of (Inl e, g, tr) \<Rightarrow> (Inl e, g, tr) | (Inr a, g, tr) \<Rightarrow> f a (g, tr))"

definition thenP :: "('a, 's, 'o, 'e) prog \<Rightarrow> ('b, 's, 'o, 'e) prog \<Rightarrow> ('b, 's, 'o, 'e) prog" where
  "thenP p q = bindP p (\<lambda>_. q)"

definition raise :: "'e exn \<Rightarrow> ('a, 's, 'o, 'e) prog" where
  "raise e = (\<lambda>(g, tr). (Inl e, g, tr @ [Raised e]))"

definition emit :: "('o, 'e) event \<Rightarrow> (unit, 's, 'o, 'e) prog" where
  "emit ev = (\<lambda>(g, tr). (Inr (), g, tr @ [ev]))"

definition lift :: "'e exn + 'a \<Rightarrow> ('a, 's, 'o, 'e) prog" where
  \<comment> \<open>a tensor operation of the notebook's own lines\<close>
  "lift r = (case r of Inl e \<Rightarrow> raise e | Inr a \<Rightarrow> ret a)"

definition call :: "('o, 'e) event \<Rightarrow> 'e + 'a \<Rightarrow> ('a, 's, 'o, 'e) prog" where
  \<comment> \<open>a call into a library\<close>
  "call ev r = thenP (emit ev) (case r of Inl e \<Rightarrow> raise (LibraryError e) | Inr a \<Rightarrow> ret a)"

definition get :: "('s \<Rightarrow> 'a) \<Rightarrow> ('a, 's, 'o, 'e) prog" where
  "get f = (\<lambda>(g, tr). (Inr (f g), g, tr))"

definition read_global :: "string \<Rightarrow> ('s \<Rightarrow> 'a option) \<Rightarrow> ('a, 's, 'o, 'e) prog" where
  "read_global name f =
     (\<lambda>(g, tr). case f g of None \<Rightarrow> raise (NameError name) (g, tr) | Some v \<Rightarrow> (Inr v, g, tr))"

definition modify :: "('s \<Rightarrow> 's) \<Rightarrow> (unit, 's, 'o, 'e) prog" where
  "modify upd = (\<lambda>(g, tr). (Inr (), upd g, tr))"

fun forP :: "'a list \<Rightarrow> ('a \<Rightarrow> (unit, 's, 'o, 'e) prog) \<Rightarrow> (unit, 's, 'o, 'e) prog" where
  "forP [] body = ret ()"
| "forP (x # xs) body = thenP (body x) (forP xs body)"

definition update_model ::
  "('o, 'e) event \<Rightarrow> ('m \<Rightarrow> 'e + 'm) \<Rightarrow> (unit, ('m, 'f, 'v) globals, 'o, 'e) prog" where
  \<comment> \<open>a library method that mutates the model object\<close>
  "update_model ev f =
     bindP (get model) (\<lambda>m. bindP (call ev (f m)) (\<lambda>m'. modify (\<lambda>g. g\<lparr>model := m'\<rparr>)))"


definition run_fun :: "('a \<Rightarrow> ('b, 's, 'o, 'e) prog) \<Rightarrow> 's \<Rightarrow> 'a \<Rightarrow> 'e exn + 'b" where
  \<comment> \<open>what a function of the notebook returns or raises when it is called in the globals \<open>g\<close>:
      the function a library operation is given\<close>
  "run_fun f g x = fst (f x (g, []))"

subsection \<open>The first cell: model, sampling\<close>

definition flatten :: "tensor2 \<Rightarrow> tensor1" where
  \<comment> \<open>\<^verbatim>\<open>t.reshape(-1,)\<close> of a two-dimensional tensor\<close>
  "flatten t = concat t"

definition interior :: "('m, 'o, 'f, 'v, 'e) library \<Rightarrow> (tensor2, 's, 'o, 'e) prog" where
  \<comment> \<open>the value assigned to \<^verbatim>\<open>x_i\<close>\<close>
  "interior L =
     (if sampling_mode = ''mesh''
      then lift (bindE (stack2 (flatten X) (flatten Y)) (\<lambda>t. Inr (permute10 t)))
      else bindP (call (Call_rand (np_i ^ 2) 2) (rand L (np_i ^ 2) 2))
             (\<lambda>u. ret (tmap (\<lambda>v. v * 2 - 1) u)))"

definition globals_init :: "('m, 'o, 'f, 'v, 'e) library \<Rightarrow> (('m, 'f, 'v) globals, unit, 'o, 'e) prog" where
  \<comment> \<open>the first cell up to the definition of \<^verbatim>\<open>fit\<close>; the result are the globals it binds\<close>
  "globals_init L =
     bindP (call Call_KAN (KAN L)) (\<lambda>m.
     bindP (interior L) (\<lambda>xi.
     bindP (lift boundary) (\<lambda>xb.
     ret \<lparr>model = m, x_i = xi, x_b = xb, pde_loss = None, bc_loss = None,
          formula = None, var = None\<rparr>)))"

subsection \<open>The loss closure\<close>

definition model_fun ::
  "('m, 'o, 'f, 'v, 'e) library \<Rightarrow> tensor2 \<Rightarrow> (tensor2, ('m, 'f, 'v) globals, 'o, 'e) prog" where
  \<comment> \<open>\<^verbatim>\<open>model(x)\<close>, for the model bound to the global \<^verbatim>\<open>model\<close> when the call is made\<close>
  "model_fun L x = bindP (get model) (\<lambda>m. call (Call_model x) (forward L m x))"

definition autograd_jacobian ::
  "('m, 'o, 'f, 'v, 'e) library \<Rightarrow> (tensor2 \<Rightarrow> (tensor1, 's, 'o, 'e) prog) \<Rightarrow> tensor2
     \<Rightarrow> (tensor3, 's, 'o, 'e) prog" where
  \<comment> \<open>\<^verbatim>\<open>autograd.functional.jacobian(f, x, create_graph=True)\<close>: the operation calls \<open>f\<close> on the
      tensors of its choice; an exception of \<open>f\<close> ends it\<close>
  "autograd_jacobian L f x = (\<lambda>(g, tr).
     (case jacobian L (run_fun f g) x of
        (calls, outcome) \<Rightarrow>
          thenP (emit (Call_jacobian x))
         (thenP (forP calls (\<lambda>x'. thenP (f x') (ret ())))
                (case outcome of Inl e \<Rightarrow> raise (LibraryError e) | Inr j \<Rightarrow> ret j)))
       (g, tr))"

definition func_sum ::
  "(tensor2 \<Rightarrow> (tensor2, 's, 'o, 'e) prog) \<Rightarrow> tensor2 \<Rightarrow> (tensor1, 's, 'o, 'e) prog" where
  \<comment> \<open>\<^verbatim>\<open>_func_sum\<close>, the function local to \<^verbatim>\<open>batch_jacobian\<close>\<close>
  "func_sum func x = bindP (func x) (\<lambda>y. ret (sum_dim0 y))"

definition batch_jacobian ::
  "('m, 'o, 'f, 'v, 'e) library \<Rightarrow> (tensor2 \<Rightarrow> (tensor2, 's, 'o, 'e) prog) \<Rightarrow> tensor2
     \<Rightarrow> (tensor3, 's, 'o, 'e) prog" where
  "batch_jacobian L func x =
     bindP (autograd_jacobian L (func_sum func) x) (\<lambda>j. ret (permute102 j))"

definition sol_D1_fun ::
  "('m, 'o, 'f, 'v, 'e) library \<Rightarrow> tensor2 \<Rightarrow> (tensor2, ('m, 'f, 'v) globals, 'o, 'e) prog" where
  \<comment> \<open>\<^verbatim>\<open>lambda x: batch_jacobian(model, x, create_graph=True)[:,0,:]\<close>\<close>
  "sol_D1_fun L x = bindP (batch_jacobian L (model_fun L) x) (\<lambda>j. lift (column j 0))"

definition closure ::
  "('m, 'o, 'f, 'v, 'e) library \<Rightarrow> (real, ('m, 'f, 'v) globals, 'o, 'e) prog" where
  "closure L =
     thenP (update_model Call_zero_grad (zero_grad L))
    (bindP (get x_i) (\<lambda>xi. bindP (lift (sol_fun xi)) (\<lambda>sol.
     bindP (get x_i) (\<lambda>xi. bindP (sol_D1_fun L xi) (\<lambda>sol_D1.
     bindP (get x_i) (\<lambda>xi. bindP (batch_jacobian L (sol_D1_fun L) xi) (\<lambda>sol_D2.
     bindP (ret (sum_dim1_keepdim (diagonal12 sol_D2))) (\<lambda>lap.
     bindP (get x_i) (\<lambda>xi. bindP (lift (source_fun xi)) (\<lambda>source.
     bindP (lift (tsub lap source)) (\<lambda>d.
     thenP (modify (\<lambda>g. g\<lparr>pde_loss := Some (tmean (tsquare d))\<rparr>))
    (bindP (get x_b) (\<lambda>xb. bindP (lift (sol_fun xb)) (\<lambda>bc_true.
     bindP (get x_b) (\<lambda>xb. bindP (model_fun L xb) (\<lambda>bc_pred.
     bindP (lift (tsub bc_pred bc_true)) (\<lambda>d'.
     thenP (modify (\<lambda>g. g\<lparr>bc_loss := Some (tmean (tsquare d'))\<rparr>))
    (bindP (read_global ''pde_loss'' pde_loss) (\<lambda>p.
     bindP (read_global ''bc_loss'' bc_loss) (\<lambda>b.
     bindP (ret (alpha * p + b)) (\<lambda>loss.
     thenP (update_model Call_backward (\<lambda>m. backward L m loss))
    (ret loss))))))))))))))))))))))"

subsection \<open>The training loop\<close>

definition closure_fun ::
  "('m, 'o, 'f, 'v, 'e) library \<Rightarrow> ('m, 'f, 'v) globals \<Rightarrow> 'm \<Rightarrow> ('e exn + real) \<times> 'm" where
  \<comment> \<open>the closure as the optimizer is given it: called with the parameters at \<open>mc\<close>, it returns
      the loss or raises, and leaves the model object in a new state\<close>
  "closure_fun L g mc = (case closure L (g\<lparr>model := mc\<rparr>, []) of (r, g', _) \<Rightarrow> (r, model g'))"

definition evaluate_closure ::
  "('m, 'o, 'f, 'v, 'e) library \<Rightarrow> 'm \<Rightarrow> (unit, ('m, 'f, 'v) globals, 'o, 'e) prog" where
  \<comment> \<open>the optimizer has moved the parameters to \<open>mc\<close> and calls the closure\<close>
  "evaluate_closure L mc = thenP (modify (\<lambda>g. g\<lparr>model := mc\<rparr>)) (thenP (closure L) (ret ()))"

definition finish_step :: "'e + 'm \<times> 'o \<Rightarrow> ('o, ('m, 'f, 'v) globals, 'o, 'e) prog" where
  \<comment> \<open>the step raises, or leaves the parameters and its own state updated\<close>
  "finish_step outcome =
     (case outcome of
        Inl e \<Rightarrow> raise (LibraryError e)
      | Inr (m', optimizer') \<Rightarrow> thenP (modify (\<lambda>g. g\<lparr>model := m'\<rparr>)) (ret optimizer'))"

definition optimizer_step ::
  "('m, 'o, 'f, 'v, 'e) library \<Rightarrow> 'o \<Rightarrow> ('o, ('m, 'f, 'v) globals, 'o, 'e) prog" where
  \<comment> \<open>\<^verbatim>\<open>optimizer.step(closure)\<close>: the optimizer sets the parameters and runs the closure, as
      often as it decides; an exception of the closure ends the step\<close>
  "optimizer_step L optimizer = (\<lambda>(g, tr).
     (case step L optimizer (closure_fun L g) (model g) of
        (calls, outcome) \<Rightarrow>
          thenP (emit (Call_step optimizer))
         (thenP (forP calls (evaluate_closure L)) (finish_step outcome)))
       (g, tr))"

definition grid_update ::
  "('m, 'o, 'f, 'v, 'e) library \<Rightarrow> nat \<Rightarrow> (unit, ('m, 'f, 'v) globals, 'o, 'e) prog" where
  \<comment> \<open>\<^verbatim>\<open>if _ % 5 == 0 and _ < 50: model.update_grid_from_samples(x_i)\<close>\<close>
  "grid_update L i =
     (if i mod 5 = 0 \<and> i < 50
      then bindP (get x_i) (\<lambda>xi.
             update_model (Call_update_grid xi) (\<lambda>m. update_grid_from_samples L m xi))
      else ret ())"

definition report ::
  "('m, 'o, 'f, 'v, 'e) library \<Rightarrow> nat \<Rightarrow> (unit, ('m, 'f, 'v) globals, 'o, 'e) prog" where
  \<comment> \<open>the lines of the loop body after \<^verbatim>\<open>optimizer.step(closure)\<close>\<close>
  "report L i =
     bindP (get x_i) (\<lambda>xi. bindP (lift (sol_fun xi)) (\<lambda>sol.
     bindP (read_global ''pde_loss'' pde_loss) (\<lambda>p.
     bindP (read_global ''bc_loss'' bc_loss) (\<lambda>b.
     bindP (ret (alpha * p + b)) (\<lambda>loss.
     bindP (get x_i) (\<lambda>xi. bindP (model_fun L xi) (\<lambda>pred.
     bindP (lift (tsub pred sol)) (\<lambda>d.
     bindP (ret (tmean (tsquare d))) (\<lambda>l2.
     (if i mod log' = 0
      then bindP (read_global ''pde_loss'' pde_loss) (\<lambda>p.
           bindP (read_global ''bc_loss'' bc_loss) (\<lambda>b.
           emit (Call_set_description p b l2)))
      else ret ()))))))))))"

definition fit_body ::
  "('m, 'o, 'f, 'v, 'e) library \<Rightarrow> 'o \<Rightarrow> nat \<Rightarrow> ('o, ('m, 'f, 'v) globals, 'o, 'e) prog" where
  \<comment> \<open>the body of the loop, for the index \<^verbatim>\<open>_\<close>; the result is the state of the optimizer
      object after the step\<close>
  "fit_body L optimizer i =
     thenP (emit (Iteration i))
    (thenP (grid_update L i)
    (bindP (optimizer_step L optimizer) (\<lambda>optimizer'.
     thenP (report L i) (ret optimizer'))))"

fun fit_loop ::
  "('m, 'o, 'f, 'v, 'e) library \<Rightarrow> 'o \<Rightarrow> nat list \<Rightarrow> (unit, ('m, 'f, 'v) globals, 'o, 'e) prog" where
  "fit_loop L optimizer [] = ret ()"
| "fit_loop L optimizer (i # is) =
     bindP (fit_body L optimizer i) (\<lambda>optimizer'. fit_loop L optimizer' is)"

definition fit :: "('m, 'o, 'f, 'v, 'e) library \<Rightarrow> (unit, ('m, 'f, 'v) globals, 'o, 'e) prog" where
  "fit L =
     bindP (get model) (\<lambda>m.
     bindP (call Call_LBFGS (LBFGS L m)) (\<lambda>optimizer.
     fit_loop L optimizer [0..<steps]))"

subsection \<open>The cells, in order\<close>

definition cell_plot :: "('m, 'o, 'f, 'v, 'e) library \<Rightarrow> (unit, ('m, 'f, 'v) globals, 'o, 'e) prog" where
  "cell_plot L = bindP (get model) (\<lambda>m. call Call_plot (plot L m 10))"

definition cell_fix :: "('m, 'o, 'f, 'v, 'e) library \<Rightarrow> (unit, ('m, 'f, 'v) globals, 'o, 'e) prog" where
  "cell_fix L =
     thenP (forP [0..<2] (\<lambda>i. forP [0..<2] (\<lambda>j.
              update_model (Call_fix_symbolic 0 i j ''x'') (\<lambda>m. fix_symbolic L m 0 i j ''x''))))
           (forP [0..<2] (\<lambda>i.
              update_model (Call_fix_symbolic 1 i 0 ''sin'') (\<lambda>m. fix_symbolic L m 1 i 0 ''sin'')))"

definition cell_formula :: "('m, 'o, 'f, 'v, 'e) library \<Rightarrow> (unit, ('m, 'f, 'v) globals, 'o, 'e) prog" where
  "cell_formula L =
     bindP (get model) (\<lambda>m.
     bindP (call Call_symbolic_formula (symbolic_formula L m 5)) (\<lambda>(f, v).
     modify (\<lambda>g. g\<lparr>formula := Some f, var := Some v\<rparr>)))"

definition cells :: "('m, 'o, 'f, 'v, 'e) library \<Rightarrow> (unit, ('m, 'f, 'v) globals, 'o, 'e) prog" where
  \<comment> \<open>everything after the globals of the first cell are bound\<close>
  "cells L = thenP (fit L) (thenP (cell_plot L) (thenP (cell_fix L) (thenP (fit L) (cell_formula L))))"

definition notebook ::
  "('m, 'o, 'f, 'v, 'e) library \<Rightarrow> ('e exn + unit) \<times> ('m, 'f, 'v) globals option \<times> ('o, 'e) event list" where
  \<comment> \<open>a run of all cells from a fresh kernel: the outcome, the globals (once bound) and the trace\<close>
  "notebook L =
     (case globals_init L ((), []) of
        (Inl e, _, tr) \<Rightarrow> (Inl e, None, tr)
      | (Inr g, _, tr) \<Rightarrow> (case cells L (g, tr) of (r, g', tr') \<Rightarrow> (r, Some g', tr')))"


subsection \<open>Stages\<close>

text \<open>
  The stages of the notebook, as the trace shows them: the calls that construct, sample,
  train, plot, fix and extract, without the tensors and optimizer states they carry.
  What the closure and the progress report call is not a stage.
\<close>

datatype stage =
    Model_constructed
  | Sampled nat nat
  | Optimizer_constructed
  | Iteration_begins nat
  | Grid_updated
  | Optimizer_stepped
  | Plotted
  | Fixed nat nat nat string
  | Formula_extracted

fun stage_of :: "('o, 'e) event \<Rightarrow> stage option" where
  "stage_of Call_KAN = Some Model_constructed"
| "stage_of (Call_rand r c) = Some (Sampled r c)"
| "stage_of Call_LBFGS = Some Optimizer_constructed"
| "stage_of (Iteration i) = Some (Iteration_begins i)"
| "stage_of (Call_update_grid x) = Some Grid_updated"
| "stage_of (Call_step opt) = Some Optimizer_stepped"
| "stage_of Call_plot = Some Plotted"
| "stage_of (Call_fix_symbolic l i j name) = Some (Fixed l i j name)"
| "stage_of Call_symbolic_formula = Some Formula_extracted"
| "stage_of _ = None"

fun stages :: "('o, 'e) event list \<Rightarrow> stage list" where
  "stages [] = []"
| "stages (ev # tr) = (case stage_of ev of None \<Rightarrow> stages tr | Some s \<Rightarrow> s # stages tr)"

definition body_stages :: "nat \<Rightarrow> stage list" where
  \<comment> \<open>one iteration of the loop of \<^verbatim>\<open>fit\<close>\<close>
  "body_stages i =
     Iteration_begins i # (if i mod 5 = 0 \<and> i < 50 then [Grid_updated] else []) @ [Optimizer_stepped]"

definition fit_stages :: "stage list" where
  \<comment> \<open>one call of \<^verbatim>\<open>fit\<close>\<close>
  "fit_stages = Optimizer_constructed # concat (map body_stages [0..<steps])"

definition notebook_stages :: "stage list" where
  "notebook_stages =
     [Model_constructed, Sampled (np_i ^ 2) 2] @ fit_stages
     @ [Plotted,
        Fixed 0 0 0 ''x'', Fixed 0 0 1 ''x'', Fixed 0 1 0 ''x'', Fixed 0 1 1 ''x'',
        Fixed 1 0 0 ''sin'', Fixed 1 1 0 ''sin'']
     @ fit_stages @ [Formula_extracted]"



subsection \<open>Assertions about programs\<close>

definition is_Raised :: "('o, 'e) event \<Rightarrow> bool" where
  "is_Raised ev = (case ev of Raised e \<Rightarrow> True | _ \<Rightarrow> False)"

definition is_NameError :: "'e exn \<Rightarrow> bool" where
  "is_NameError e = (case e of NameError n \<Rightarrow> True | _ \<Rightarrow> False)"

definition ends_with :: "'e exn + 'a \<Rightarrow> ('o, 'e) event list \<Rightarrow> bool" where
  \<comment> \<open>an exception is the last event of the trace, and the only one raised\<close>
  "ends_with r new =
     (case r of
        Inr a \<Rightarrow> list_all (\<lambda>ev. \<not> is_Raised ev) new
      | Inl e \<Rightarrow> new \<noteq> [] \<and> last new = Raised e \<and> list_all (\<lambda>ev. \<not> is_Raised ev) (butlast new))"

definition hoare ::
  "('s \<Rightarrow> bool) \<Rightarrow> ('a, 's, 'o, 'e) prog \<Rightarrow> ('a \<Rightarrow> 's \<Rightarrow> bool) \<Rightarrow> ('e exn \<Rightarrow> 's \<Rightarrow> bool)
     \<Rightarrow> (('o, 'e) event \<Rightarrow> bool) \<Rightarrow> bool" where
  \<comment> \<open>from globals that satisfy \<open>I\<close>, the program returns in globals that satisfy \<open>Q\<close> or raises
      in globals that satisfy \<open>E\<close>; it appends to the trace, calls satisfying \<open>P\<close> only\<close>
  "hoare I p Q E P =
     (\<forall>g tr. I g \<longrightarrow>
        (case p (g, tr) of (r, g', tr') \<Rightarrow>
           (\<exists>new. tr' = tr @ new \<and> list_all (\<lambda>ev. is_Raised ev \<or> P ev) new \<and> ends_with r new)
           \<and> (case r of Inr a \<Rightarrow> Q a g' | Inl e \<Rightarrow> E e g')))"

definition stage_run :: "('a, 's, 'o, 'e) prog \<Rightarrow> stage list \<Rightarrow> stage list list \<Rightarrow> bool" where
  \<comment> \<open>the stages of a run that returns are \<open>S\<close>; those of a run that raises are among \<open>F\<close>\<close>
  "stage_run p S F =
     (\<forall>g tr. case p (g, tr) of (r, g', tr') \<Rightarrow>
        (\<exists>new. tr' = tr @ new \<and> (case r of Inr a \<Rightarrow> stages new = S | Inl e \<Rightarrow> stages new \<in> set F)))"

definition quiet :: "('a, 's, 'o, 'e) prog \<Rightarrow> bool" where
  "quiet p = stage_run p [] [[]]"

definition frame ::
  "tensor2 \<Rightarrow> tensor2 \<Rightarrow> 'f option \<Rightarrow> 'v option \<Rightarrow> ('m, 'f, 'v) globals \<Rightarrow> bool" where
  \<comment> \<open>the globals that training does not assign\<close>
  "frame xi xb fo va g = (x_i g = xi \<and> x_b g = xb \<and> formula g = fo \<and> var g = va)"

definition bound :: "('m, 'f, 'v) globals \<Rightarrow> bool" where
  "bound g = (pde_loss g \<noteq> None \<and> bc_loss g \<noteq> None)"

definition jacobian_at_input :: "('m, 'o, 'f, 'v, 'e) library \<Rightarrow> bool" where
  \<comment> \<open>\<^verbatim>\<open>jacobian\<close> evaluates the function it is given once, on the tensor it is given\<close>
  "jacobian_at_input L = (\<forall>f x. fst (jacobian L f x) = [x])"

definition step_calls_closure :: "('m, 'o, 'f, 'v, 'e) library \<Rightarrow> bool" where
  \<comment> \<open>\<^verbatim>\<open>step\<close> evaluates the closure at least once\<close>
  "step_calls_closure L = (\<forall>opt cl m. fst (step L opt cl m) \<noteq> [])"

definition rand_unit_interval :: "('m, 'o, 'f, 'v, 'e) library \<Rightarrow> bool" where
  \<comment> \<open>\<^verbatim>\<open>torch.rand((r, c))\<close> has \<open>r\<close> rows of \<open>c\<close> entries, each in \<open>[0, 1)\<close>\<close>
  "rand_unit_interval L =
     (\<forall>r c u. rand L r c = Inr u \<longrightarrow>
        length u = r \<and> (\<forall>row \<in> set u. length row = c \<and> (\<forall>v \<in> set row. 0 \<le> v \<and> v < 1)))"

definition jacobian_event :: "('m, 'o, 'f, 'v, 'e) library \<Rightarrow> tensor2 \<Rightarrow> ('o, 'e) event \<Rightarrow> bool" where
  \<comment> \<open>the calls made in a call of \<^verbatim>\<open>batch_jacobian\<close> on \<open>x\<close>: all of them on \<open>x\<close>, when
      \<^verbatim>\<open>jacobian\<close> evaluates its function on the tensor it is given\<close>
  "jacobian_event L x ev =
     ((\<exists>x'. ev = Call_jacobian x' \<and> (jacobian_at_input L \<longrightarrow> x' = x))
      \<or> (\<exists>x'. ev = Call_model x' \<and> (jacobian_at_input L \<longrightarrow> x' = x)))"

definition closure_event ::
  "('m, 'o, 'f, 'v, 'e) library \<Rightarrow> tensor2 \<Rightarrow> tensor2 \<Rightarrow> ('o, 'e) event \<Rightarrow> bool" where
  "closure_event L xi xb ev =
     (ev = Call_zero_grad \<or> jacobian_event L xi ev \<or> ev = Call_model xb \<or> ev = Call_backward)"

definition fit_event ::
  "('m, 'o, 'f, 'v, 'e) library \<Rightarrow> tensor2 \<Rightarrow> tensor2 \<Rightarrow> ('o, 'e) event \<Rightarrow> bool" where
  \<comment> \<open>the calls of a run of \<^verbatim>\<open>fit\<close>, with the batches \<open>xi\<close> and \<open>xb\<close>\<close>
  "fit_event L xi xb ev =
     (closure_event L xi xb ev \<or> ev = Call_LBFGS \<or> (\<exists>i. ev = Iteration i)
      \<or> ev = Call_update_grid xi \<or> (\<exists>opt. ev = Call_step opt) \<or> ev = Call_model xi
      \<or> (\<exists>p b l2. ev = Call_set_description p b l2))"

definition notebook_event ::
  "('m, 'o, 'f, 'v, 'e) library \<Rightarrow> tensor2 \<Rightarrow> tensor2 \<Rightarrow> ('o, 'e) event \<Rightarrow> bool" where
  "notebook_event L xi xb ev =
     (fit_event L xi xb ev \<or> ev = Call_KAN \<or> (\<exists>r c. ev = Call_rand r c) \<or> ev = Call_plot
      \<or> (\<exists>l i j name. ev = Call_fix_symbolic l i j name) \<or> ev = Call_symbolic_formula)"

definition sampled :: "tensor2 \<Rightarrow> tensor2 \<Rightarrow> ('m, 'f, 'v) globals \<Rightarrow> bool" where
  "sampled xi xb g = (x_i g = xi \<and> x_b g = xb)"

definition boundary_points :: tensor2 where
  \<comment> \<open>the four edges, in the order of the specification\<close>
  "boundary_points = edge_x (- 1) @ edge_x 1 @ edge_y (- 1) @ edge_y 1"

definition uses_batches :: "tensor2 \<Rightarrow> tensor2 \<Rightarrow> ('o, 'e) event \<Rightarrow> bool" where
  \<comment> \<open>the tensor a call is given is the interior batch \<open>xi\<close>; the model alone is also
      evaluated on the boundary batch \<open>xb\<close>\<close>
  "uses_batches xi xb ev =
     (case ev of
        Call_jacobian x \<Rightarrow> x = xi
      | Call_update_grid x \<Rightarrow> x = xi
      | Call_model x \<Rightarrow> x = xi \<or> x = xb
      | _ \<Rightarrow> True)"


definition initial :: "'m \<Rightarrow> tensor2 \<Rightarrow> ('m, 'f, 'v) globals" where
  \<comment> \<open>the globals as the first cell leaves them, for the model \<open>m\<close> that \<^verbatim>\<open>KAN\<close> returns and the
      tensor \<open>u\<close> that \<^verbatim>\<open>torch.rand\<close> returns\<close>
  "initial m u =
     \<lparr>model = m, x_i = tmap (\<lambda>v. v * 2 - 1) u, x_b = boundary_points, pde_loss = None,
      bc_loss = None, formula = None, var = None\<rparr>"

subsection \<open>The sub-units that are fixed, as the specification names them\<close>

definition fixed_units :: "(nat \<times> nat \<times> nat \<times> string) list" where
  \<comment> \<open>the four sub-units of the first layer to \<^verbatim>\<open>'x'\<close>, the two of the second to \<^verbatim>\<open>'sin'\<close>\<close>
  "fixed_units =
     [(0, 0, 0, ''x''), (0, 0, 1, ''x''), (0, 1, 0, ''x''), (0, 1, 1, ''x''),
      (1, 0, 0, ''sin''), (1, 1, 0, ''sin'')]"

fun fix_units ::
  "('m, 'o, 'f, 'v, 'e) library \<Rightarrow> (nat \<times> nat \<times> nat \<times> string) list \<Rightarrow> 'm \<Rightarrow> 'e + 'm" where
  \<comment> \<open>the model after the sub-units of a list are fixed in order, or the first exception\<close>
  "fix_units L [] m = Inr m"
| "fix_units L ((l, i, j, name) # us) m =
     (case fix_symbolic L m l i j name of Inl e \<Rightarrow> Inl e | Inr m' \<Rightarrow> fix_units L us m')"

definition fix_calls :: "(nat \<times> nat \<times> nat \<times> string) list \<Rightarrow> ('o, 'e) event list" where
  "fix_calls us = map (\<lambda>(l, i, j, name). Call_fix_symbolic l i j name) us"

subsection \<open>Libraries for concrete runs\<close>

text \<open>
  A library that never raises. The state of the model is the list of the sub-units
  fixed so far; the model is constantly zero and its derivatives are zero tensors of the
  shape torch documents; \<^verbatim>\<open>jacobian\<close> evaluates its function once, on its argument; the
  random tensor is zero; a step of the optimizer evaluates the closure once, leaves the
  parameters where they are and counts the steps in its own state; the formula extracted
  is the list of the sub-units fixed.
\<close>

definition toy :: "((nat \<times> nat \<times> nat \<times> string) list, nat, (nat \<times> nat \<times> nat \<times> string) list, nat, unit) library" where
  "toy =
     \<lparr>KAN = Inr [],
      rand = (\<lambda>r c. Inr (replicate r (replicate c 0))),
      forward = (\<lambda>m x. Inr (map (\<lambda>row. [0]) x)),
      jacobian = (\<lambda>f x. ([x], Inr (case f x of
                     Inl e \<Rightarrow> []
                   | Inr y \<Rightarrow> map (\<lambda>v. map (\<lambda>row. map (\<lambda>c. 0) row) x) y))),
      LBFGS = (\<lambda>m. Inr 0),
      zero_grad = (\<lambda>m. Inr m),
      backward = (\<lambda>m loss. Inr m),
      step = (\<lambda>opt cl m. ([m], Inr (m, Suc opt))),
      update_grid_from_samples = (\<lambda>m x. Inr m),
      plot = (\<lambda>m b. Inr ()),
      fix_symbolic = (\<lambda>m l i j name. Inr (m @ [(l, i, j, name)])),
      symbolic_formula = (\<lambda>m d. Inr (m, d))\<rparr>"




text \<open>
  The same library with a model that raises when it is plotted, and with an optimizer
  that evaluates the closure only while no sub-unit of the model is fixed.
\<close>

definition unplottable :: "((nat \<times> nat \<times> nat \<times> string) list, nat, (nat \<times> nat \<times> nat \<times> string) list, nat, unit) library" where
  "unplottable = toy\<lparr>plot := (\<lambda>m b. Inl ())\<rparr>"

definition lazy :: "((nat \<times> nat \<times> nat \<times> string) list, nat, (nat \<times> nat \<times> nat \<times> string) list, nat, unit) library" where
  "lazy = toy\<lparr>step := (\<lambda>opt cl m. (if m = [] then [m] else [], Inr (m, Suc opt)))\<rparr>"

subsection \<open>Stages of runs that raise\<close>

definition body_failures :: "nat \<Rightarrow> stage list list" where
  \<comment> \<open>an iteration raises in the grid update, or in the step or after it\<close>
  "body_failures i =
     [Iteration_begins i # (if i mod 5 = 0 \<and> i < 50 then [Grid_updated] else []), body_stages i]"

fun loop_failures :: "nat list \<Rightarrow> stage list list" where
  "loop_failures [] = []"
| "loop_failures (i # is) = body_failures i @ map ((@) (body_stages i)) (loop_failures is)"

definition fit_failures :: "stage list list" where
  "fit_failures =
     [Optimizer_constructed] # map ((#) Optimizer_constructed) (loop_failures [0..<steps])"

definition fix_stages :: "stage list" where
  "fix_stages =
     [Fixed 0 0 0 ''x'', Fixed 0 0 1 ''x'', Fixed 0 1 0 ''x'', Fixed 0 1 1 ''x'',
      Fixed 1 0 0 ''sin'', Fixed 1 1 0 ''sin'']"

definition fix_failures :: "stage list list" where
  "fix_failures = map (\<lambda>k. take k fix_stages) [1..<7]"

definition cells_failures :: "stage list list" where
  "cells_failures =
     fit_failures @ map ((@) fit_stages)
       ([[Plotted]] @ map ((@) [Plotted])
          (fix_failures @ map ((@) fix_stages)
             (fit_failures @ map ((@) fit_stages) [[Formula_extracted]])))"

definition notebook_failures :: "stage list list" where
  "notebook_failures =
     [[Model_constructed], [Model_constructed, Sampled (np_i ^ 2) 2]]
     @ map ((@) [Model_constructed, Sampled (np_i ^ 2) 2]) cells_failures"

fun step_optimizers :: "('o, 'e) event list \<Rightarrow> 'o list" where
  \<comment> \<open>the states of the optimizer object on which \<^verbatim>\<open>step\<close> is called, in order\<close>
  "step_optimizers [] = []"
| "step_optimizers (Call_step opt # tr) = opt # step_optimizers tr"
| "step_optimizers (ev # tr) = step_optimizers tr"

subsection \<open>The loss, as the specification words it\<close>


definition source_term :: "real list \<Rightarrow> real" where
  "source_term p = - 2 * pi ^ 2 * sin (pi * p ! 0) * sin (pi * p ! 1)"

definition solution :: "real list \<Rightarrow> real" where
  "solution p = sin (pi * p ! 0) * sin (pi * p ! 1)"





subsection \<open>What automatic differentiation is relied on for\<close>








subsection \<open>The tensors of derivatives in an invocation of the closure\<close>

definition first_derivative ::
  "('m, 'o, 'f, 'v, 'e) library \<Rightarrow> ('m, 'f, 'v) globals \<Rightarrow> tensor2 \<Rightarrow> tensor2 \<Rightarrow> bool" where
  \<comment> \<open>\<open>d\<close> is what \<^verbatim>\<open>sol_D1_fun(x)\<close> returns in the globals \<open>g\<close>: the output 0 of the tensor that
      \<^verbatim>\<open>jacobian\<close> returns for the summed model\<close>
  "first_derivative L g x d =
     (\<exists>calls J. jacobian L (run_fun (func_sum (model_fun L)) g) x = (calls, Inr J)
        \<and> column (permute102 J) 0 = (Inr d :: 'e exn + tensor2))"

definition second_derivative ::
  "('m, 'o, 'f, 'v, 'e) library \<Rightarrow> ('m, 'f, 'v) globals \<Rightarrow> tensor2 \<Rightarrow> tensor3 \<Rightarrow> bool" where
  \<comment> \<open>\<open>H\<close> is what \<^verbatim>\<open>batch_jacobian(sol_D1_fun, x)\<close> returns in the globals \<open>g\<close>: the tensor that
      \<^verbatim>\<open>jacobian\<close> returns for the summed \<^verbatim>\<open>sol_D1_fun\<close>, batch dimension first\<close>
  "second_derivative L g x H =
     (\<exists>calls J. jacobian L (run_fun (func_sum (sol_D1_fun L)) g) x = (calls, Inr J)
        \<and> H = permute102 J)"

subsection \<open>Traces of runs on the concrete libraries\<close>

definition idle_body_trace :: "real \<Rightarrow> real \<Rightarrow> nat \<Rightarrow> nat \<Rightarrow> (nat, unit) event list" where
  \<comment> \<open>an iteration in which the optimizer does not evaluate the closure: the report shows the
      losses \<open>p\<close> and \<open>b\<close> bound before\<close>
  "idle_body_trace p b opt i =
     Iteration i # (if i mod 5 = 0 \<and> i < 50 then [Call_update_grid [[0, 0]]] else [])
     @ [Call_step opt, Call_model [[0, 0]], Call_set_description p b 0]"

fun idle_loop_trace :: "real \<Rightarrow> real \<Rightarrow> nat \<Rightarrow> nat list \<Rightarrow> (nat, unit) event list" where
  "idle_loop_trace p b opt [] = []"
| "idle_loop_trace p b opt (i # is) = idle_body_trace p b opt i @ idle_loop_trace p b (Suc opt) is"


section \<open>Properties\<close>

subsection \<open>The boundary batch\<close>

lemma boundary_value:
  "(case (boundary :: 'e exn + tensor2) of
      Inl e \<Rightarrow> False
    | Inr b \<Rightarrow> b = edge_x (- 1) @ edge_x 1 @ edge_y (- 1) @ edge_y 1)"
  by code_simp

lemma boundary_eq:
  "(boundary :: 'e exn + tensor2) = Inr (edge_x (- 1) @ edge_x 1 @ edge_y (- 1) @ edge_y 1)"
  using boundary_value [where ?'e = 'e] by (simp split: sum.splits)

lemma edges_length: "length (edge_x (- 1) @ edge_x 1 @ edge_y (- 1) @ edge_y 1) = 4 * 21"
  by (simp add: edge_x_def edge_y_def)

lemma edges_on_boundary:
  "list_all on_boundary (edge_x (- 1) @ edge_x 1 @ edge_y (- 1) @ edge_y 1)"
  by (auto simp add: edge_x_def edge_y_def on_boundary_def list_all_iff)

text \<open>
  C3. The value bound to \<^verbatim>\<open>x_b\<close> is the concatenation of the four edges of the 21 x 21
  mesh of the square, in the order x = -1, x = +1, y = -1, y = +1; it has 4 * 21 = 84
  rows, and every row is a point with a coordinate equal to -1 or to +1. No operation
  on the way raises.
\<close>

theorem boundary_four_edges:
  "(boundary :: 'e exn + tensor2) = Inr (edge_x (- 1) @ edge_x 1 @ edge_y (- 1) @ edge_y 1)
   \<and> length (edge_x (- 1) @ edge_x 1 @ edge_y (- 1) @ edge_y 1) = 4 * 21
   \<and> list_all on_boundary (edge_x (- 1) @ edge_x 1 @ edge_y (- 1) @ edge_y 1)"
  using boundary_eq [where ?'e = 'e] edges_length edges_on_boundary by simp

text \<open>
  The rows of the boundary batch are the images of pairs of mesh indices under an
  injective map: counting rows is counting index pairs.
\<close>

lemma edges_grid_points:
  "edge_x (- 1) @ edge_x 1 @ edge_y (- 1) @ edge_y 1 = map grid_point boundary_indices"
  by (simp add: edge_x_def edge_y_def boundary_indices_def grid_point_def comp_def)

lemma inj_grid_point: "inj grid_point"
  by (rule injI) (auto simp add: grid_point_def prod_eq_iff)

lemma count_list_map_inj: "inj f \<Longrightarrow> count_list (map f xs) (f x) = count_list xs x"
  by (induction xs) (auto dest: injD)

lemma length_remdups_map_inj:
  assumes "inj f"
  shows "length (remdups (map f xs)) = length (remdups xs)"
proof -
  from assms have "inj_on f (set xs)" by (rule inj_on_subset) simp
  then have "card (f ` set xs) = card (set xs)" by (rule card_image)
  then show ?thesis by (simp add: length_remdups_card_conv)
qed

lemma indices_distinct: "length (remdups boundary_indices) = 80"
  by code_simp

lemma indices_corners:
  "count_list boundary_indices (0, 0) = 2" "count_list boundary_indices (0, 20) = 2"
  "count_list boundary_indices (20, 0) = 2" "count_list boundary_indices (20, 20) = 2"
  by code_simp+

lemma corner_points:
  "[- 1, - 1] = grid_point (0, 0)" "[- 1, 1] = grid_point (0, 20)"
  "[1, - 1] = grid_point (20, 0)" "[1, 1] = grid_point (20, 20)"
  by (simp_all add: grid_point_def)

text \<open>
  C9. The boundary batch has 84 rows and 80 distinct ones: each of the four corners
  (-1,-1), (-1,1), (1,-1), (1,1) occurs exactly twice, once on each edge through it.
\<close>

theorem boundary_corners_twice:
  "(case (boundary :: 'e exn + tensor2) of
      Inl e \<Rightarrow> False
    | Inr b \<Rightarrow>
        length b = 84 \<and> length (remdups b) = 80
        \<and> count_list b [- 1, - 1] = 2 \<and> count_list b [- 1, 1] = 2
        \<and> count_list b [1, - 1] = 2 \<and> count_list b [1, 1] = 2)"
  unfolding boundary_eq edges_grid_points corner_points
  by (simp add: count_list_map_inj [OF inj_grid_point] length_remdups_map_inj [OF inj_grid_point]
      indices_distinct indices_corners)
    (simp add: boundary_indices_def)

subsection \<open>Rules for programs\<close>


lemma is_Raised_simps [simp]:
  "is_Raised (Raised e)" "\<not> is_Raised Call_KAN" "\<not> is_Raised (Call_rand a b)"
  "\<not> is_Raised Call_LBFGS" "\<not> is_Raised (Iteration i)" "\<not> is_Raised (Call_update_grid x)"
  "\<not> is_Raised (Call_step opt)" "\<not> is_Raised Call_zero_grad" "\<not> is_Raised (Call_jacobian x)"
  "\<not> is_Raised (Call_model x)" "\<not> is_Raised Call_backward"
  "\<not> is_Raised (Call_set_description pl bl l2)" "\<not> is_Raised Call_plot"
  "\<not> is_Raised (Call_fix_symbolic la ia ja na)" "\<not> is_Raised Call_symbolic_formula"
  by (simp_all add: is_Raised_def)

lemma ends_with_Nil [simp]: "ends_with (Inr a) []"
  by (simp add: ends_with_def)

lemma ends_with_raise [simp]: "ends_with (Inl e) [Raised e]"
  by (simp add: ends_with_def)

lemma ends_with_append:
  "list_all (\<lambda>ev. \<not> is_Raised ev) n1 \<Longrightarrow> ends_with r n2 \<Longrightarrow> ends_with r (n1 @ n2)"
  by (cases r) (auto simp add: ends_with_def butlast_append)

lemma ends_with_Inr: "ends_with (Inr a) n = list_all (\<lambda>ev. \<not> is_Raised ev) n"
  by (simp add: ends_with_def)

lemma ends_with_Inr_cong: "ends_with (Inr a) n \<Longrightarrow> ends_with (Inr b) n"
  by (simp add: ends_with_def)

lemma hoareI:
  assumes "\<And>g tr r g' tr'. I g \<Longrightarrow> p (g, tr) = (r, g', tr') \<Longrightarrow>
             (\<exists>new. tr' = tr @ new \<and> list_all (\<lambda>ev. is_Raised ev \<or> P ev) new \<and> ends_with r new)
             \<and> (case r of Inr a \<Rightarrow> Q a g' | Inl e \<Rightarrow> E e g')"
  shows "hoare I p Q E P"
  unfolding hoare_def
proof (intro allI impI)
  fix g tr
  assume "I g"
  then show "case p (g, tr) of
       (r, g', tr') \<Rightarrow>
         (\<exists>new. tr' = tr @ new \<and> list_all (\<lambda>ev. is_Raised ev \<or> P ev) new \<and> ends_with r new)
         \<and> (case r of Inr a \<Rightarrow> Q a g' | Inl e \<Rightarrow> E e g')"
    using assms [of g tr] by (cases "p (g, tr)") simp
qed

lemma hoareD:
  assumes "hoare I p Q E P" "I g" "p (g, tr) = (r, g', tr')"
  shows "(\<exists>new. tr' = tr @ new \<and> list_all (\<lambda>ev. is_Raised ev \<or> P ev) new \<and> ends_with r new)
         \<and> (case r of Inr a \<Rightarrow> Q a g' | Inl e \<Rightarrow> E e g')"
  using assms(1) [unfolded hoare_def, rule_format, OF assms(2), of tr] assms(3) by simp

lemma hoare_bind:
  assumes p: "hoare I p M E P" and k: "\<And>a. hoare (M a) (k a) Q E P"
  shows "hoare I (bindP p k) Q E P"
proof (rule hoareI)
  fix g tr r g' tr'
  assume I: "I g" and run: "bindP p k (g, tr) = (r, g', tr')"
  obtain r1 g1 tr1 where p1: "p (g, tr) = (r1, g1, tr1)" by (cases "p (g, tr)") auto
  from hoareD [OF p I p1] obtain n1 where
    n1: "tr1 = tr @ n1" "list_all (\<lambda>ev. is_Raised ev \<or> P ev) n1" "ends_with r1 n1"
    and post1: "case r1 of Inr a \<Rightarrow> M a g1 | Inl e \<Rightarrow> E e g1" by blast
  show "(\<exists>new. tr' = tr @ new \<and> list_all (\<lambda>ev. is_Raised ev \<or> P ev) new \<and> ends_with r new)
         \<and> (case r of Inr a \<Rightarrow> Q a g' | Inl e \<Rightarrow> E e g')"
  proof (cases r1)
    case (Inl e)
    with run p1 have "r = Inl e" "g' = g1" "tr' = tr1" by (simp_all add: bindP_def)
    with n1 post1 Inl show ?thesis by (auto simp add: ends_with_def)
  next
    case (Inr a)
    with run p1 have k1: "k a (g1, tr1) = (r, g', tr')" by (simp add: bindP_def)
    from post1 Inr have "M a g1" by simp
    from hoareD [OF k this k1] obtain n2 where
      n2: "tr' = tr1 @ n2" "list_all (\<lambda>ev. is_Raised ev \<or> P ev) n2" "ends_with r n2"
      and post2: "case r of Inr a \<Rightarrow> Q a g' | Inl e \<Rightarrow> E e g'" by blast
    from n1 Inr have "list_all (\<lambda>ev. \<not> is_Raised ev) n1" by (simp add: ends_with_def)
    with n2 have "ends_with r (n1 @ n2)" by (simp add: ends_with_append)
    with n1 n2 post2 show ?thesis by auto
  qed
qed

lemma hoare_pre:
  assumes "hoare I' p Q E P" "\<And>g. I g \<Longrightarrow> I' g"
  shows "hoare I p Q E P"
  by (rule hoareI) (rule hoareD [OF assms(1)], rule assms(2))

lemma hoare_post:
  assumes "hoare I p Q' E' P'" "\<And>a g. Q' a g \<Longrightarrow> Q a g" "\<And>e g. E' e g \<Longrightarrow> E e g"
    "\<And>ev. P' ev \<Longrightarrow> P ev"
  shows "hoare I p Q E P"
proof (rule hoareI)
  fix g tr r g' tr'
  assume "I g" "p (g, tr) = (r, g', tr')"
  from hoareD [OF assms(1) this] obtain new where
    n: "tr' = tr @ new" "list_all (\<lambda>ev. is_Raised ev \<or> P' ev) new" "ends_with r new"
    and post: "case r of Inr a \<Rightarrow> Q' a g' | Inl e \<Rightarrow> E' e g'" by blast
  from n(2) assms(4) have "list_all (\<lambda>ev. is_Raised ev \<or> P ev) new"
    by (auto simp add: list_all_iff)
  with n post assms(2,3) show "(\<exists>new. tr' = tr @ new \<and> list_all (\<lambda>ev. is_Raised ev \<or> P ev) new \<and> ends_with r new)
         \<and> (case r of Inr a \<Rightarrow> Q a g' | Inl e \<Rightarrow> E e g')"
    by (auto split: sum.splits)
qed

text \<open>Rules for a statement in last position.\<close>

lemma hoare_ret: "(\<And>g. I g \<Longrightarrow> Q a g) \<Longrightarrow> hoare I (ret a) Q E P"
  by (rule hoareI) (auto simp add: ret_def)

lemma hoare_emit: "(\<And>g. I g \<Longrightarrow> P ev \<and> \<not> is_Raised ev \<and> Q () g) \<Longrightarrow> hoare I (emit ev) Q E P"
  by (rule hoareI) (auto simp add: emit_def ends_with_def)

lemma hoare_modify: "(\<And>g. I g \<Longrightarrow> Q () (u g)) \<Longrightarrow> hoare I (modify u) Q E P"
  by (rule hoareI) (auto simp add: modify_def)

lemma hoare_get: "(\<And>g. I g \<Longrightarrow> Q (f g) g) \<Longrightarrow> hoare I (get f) Q E P"
  by (rule hoareI) (auto simp add: get_def)

lemma hoare_raise: "(\<And>g. I g \<Longrightarrow> E e g) \<Longrightarrow> hoare I (raise e) Q E P"
  by (rule hoareI) (auto simp add: raise_def)

lemma hoare_lift:
  "(\<And>g e. I g \<Longrightarrow> r = Inl e \<Longrightarrow> E e g) \<Longrightarrow> (\<And>g a. I g \<Longrightarrow> r = Inr a \<Longrightarrow> Q a g)
     \<Longrightarrow> hoare I (lift r) Q E P"
  by (rule hoareI) (auto simp add: lift_def raise_def ret_def split: sum.splits)

lemma hoare_call:
  "(\<And>g. I g \<Longrightarrow> P ev \<and> \<not> is_Raised ev) \<Longrightarrow> (\<And>g e. I g \<Longrightarrow> r = Inl e \<Longrightarrow> E (LibraryError e) g)
     \<Longrightarrow> (\<And>g a. I g \<Longrightarrow> r = Inr a \<Longrightarrow> Q a g)
     \<Longrightarrow> hoare I (call ev r) Q E P"
  by (rule hoareI)
    (auto simp add: call_def thenP_def bindP_def emit_def raise_def ret_def ends_with_def
      split: sum.splits)

lemma hoare_read_global:
  "(\<And>g. I g \<Longrightarrow> f g = None \<Longrightarrow> E (NameError n) g) \<Longrightarrow> (\<And>g a. I g \<Longrightarrow> f g = Some a \<Longrightarrow> Q a g)
     \<Longrightarrow> hoare I (read_global n f) Q E P"
  by (rule hoareI) (auto simp add: read_global_def raise_def split: option.splits)

lemma hoare_update_model:
  "(\<And>g. I g \<Longrightarrow> P ev \<and> \<not> is_Raised ev) \<Longrightarrow> (\<And>g e. I g \<Longrightarrow> f (model g) = Inl e \<Longrightarrow> E (LibraryError e) g)
     \<Longrightarrow> (\<And>g m'. I g \<Longrightarrow> f (model g) = Inr m' \<Longrightarrow> Q () (g\<lparr>model := m'\<rparr>))
     \<Longrightarrow> hoare I (update_model ev f) Q E P"
  by (rule hoareI)
    (auto simp add: update_model_def call_def thenP_def bindP_def emit_def raise_def ret_def get_def
      modify_def ends_with_def split: sum.splits)

lemma hoare_if:
  "(c \<Longrightarrow> hoare I p Q E P) \<Longrightarrow> (\<not> c \<Longrightarrow> hoare I q Q E P) \<Longrightarrow> hoare I (if c then p else q) Q E P"
  by simp

text \<open>
  Rules for a statement followed by the rest of the program: the rest starts from the
  strongest postcondition of the statement.
\<close>

lemma hoare_seq_get:
  "(\<And>a. hoare (\<lambda>g. I g \<and> a = f g) (k a) Q E P) \<Longrightarrow> hoare I (bindP (get f) k) Q E P"
  by (rule hoare_bind [where M = "\<lambda>a g. I g \<and> a = f g"]) (rule hoare_get, simp)

lemma hoare_seq_ret:
  "hoare I (k a) Q E P \<Longrightarrow> hoare I (bindP (ret a) k) Q E P"
  by (rule hoare_bind [where M = "\<lambda>b g. I g \<and> b = a"]) (rule hoare_ret, simp, simp add: hoare_def)

lemma hoare_seq_emit:
  "(\<And>g. I g \<Longrightarrow> P ev \<and> \<not> is_Raised ev) \<Longrightarrow> hoare I (k ()) Q E P \<Longrightarrow> hoare I (bindP (emit ev) k) Q E P"
  by (rule hoare_bind [where M = "\<lambda>a g. I g"]) (rule hoare_emit, simp, simp)

lemma hoare_seq_modify:
  "hoare (\<lambda>g'. \<exists>g. I g \<and> g' = u g) (k ()) Q E P \<Longrightarrow> hoare I (bindP (modify u) k) Q E P"
  by (rule hoare_bind [where M = "\<lambda>a g'. \<exists>g. I g \<and> g' = u g"]) (rule hoare_modify, auto)

lemma hoare_seq_lift:
  "(\<And>g e. I g \<Longrightarrow> r = Inl e \<Longrightarrow> E e g) \<Longrightarrow> (\<And>a. hoare (\<lambda>g. I g \<and> r = Inr a) (k a) Q E P)
     \<Longrightarrow> hoare I (bindP (lift r) k) Q E P"
  by (rule hoare_bind [where M = "\<lambda>a g. I g \<and> r = Inr a"]) (rule hoare_lift, auto)

lemma hoare_seq_call:
  "(\<And>g. I g \<Longrightarrow> P ev \<and> \<not> is_Raised ev) \<Longrightarrow> (\<And>g e. I g \<Longrightarrow> r = Inl e \<Longrightarrow> E (LibraryError e) g)
     \<Longrightarrow> (\<And>a. hoare (\<lambda>g. I g \<and> r = Inr a) (k a) Q E P)
     \<Longrightarrow> hoare I (bindP (call ev r) k) Q E P"
  by (rule hoare_bind [where M = "\<lambda>a g. I g \<and> r = Inr a"]) (rule hoare_call, auto)

lemma hoare_seq_read_global:
  "(\<And>g. I g \<Longrightarrow> f g = None \<Longrightarrow> E (NameError n) g)
     \<Longrightarrow> (\<And>a. hoare (\<lambda>g. I g \<and> f g = Some a) (k a) Q E P)
     \<Longrightarrow> hoare I (bindP (read_global n f) k) Q E P"
  by (rule hoare_bind [where M = "\<lambda>a g. I g \<and> f g = Some a"]) (rule hoare_read_global, auto)

lemma hoare_seq_update_model:
  "(\<And>g. I g \<Longrightarrow> P ev \<and> \<not> is_Raised ev) \<Longrightarrow> (\<And>g e. I g \<Longrightarrow> f (model g) = Inl e \<Longrightarrow> E (LibraryError e) g)
     \<Longrightarrow> hoare (\<lambda>g'. \<exists>g m'. I g \<and> f (model g) = Inr m' \<and> g' = g\<lparr>model := m'\<rparr>) (k ()) Q E P
     \<Longrightarrow> hoare I (bindP (update_model ev f) k) Q E P"
  by (rule hoare_bind [where M = "\<lambda>a g'. \<exists>g m'. I g \<and> f (model g) = Inr m' \<and> g' = g\<lparr>model := m'\<rparr>"])
    (rule hoare_update_model, auto)


lemma is_NameError_simps [simp]:
  "is_NameError (NameError n)" "\<not> is_NameError (LibraryError e)"
  "\<not> is_NameError TorchIndexError" "\<not> is_NameError TorchShapeError"
  by (simp_all add: is_NameError_def)
lemma bindE_Inl: "bindE r f = Inl e \<Longrightarrow> r = Inl e \<or> (\<exists>a. r = Inr a \<and> f a = Inl e)"
  by (cases r) (simp_all add: bindE_def)

lemma mapE_Inl: "mapE f xs = Inl e \<Longrightarrow> \<exists>x \<in> set xs. f x = Inl e"
  by (induction xs) (auto dest!: bindE_Inl)

lemma index_Inl: "index xs i = Inl e \<Longrightarrow> e = TorchIndexError"
  by (auto simp add: index_def split: if_splits)

lemma column_Inl: "column t j = Inl e \<Longrightarrow> e = TorchIndexError"
  by (auto simp add: column_def dest!: mapE_Inl index_Inl)

lemma columns_Inl: "columns t j = Inl e \<Longrightarrow> e = TorchIndexError"
  by (auto simp add: columns_def dest!: mapE_Inl bindE_Inl index_Inl)

lemma broadcast1_Inl: "broadcast1 f a b = Inl e \<Longrightarrow> e = TorchShapeError"
  by (auto simp add: broadcast1_def split: if_splits)

lemma broadcast2_Inl: "broadcast2 f a b = Inl e \<Longrightarrow> e = TorchShapeError"
  by (auto simp add: broadcast2_def split: if_splits dest!: mapE_Inl broadcast1_Inl)

lemma sol_fun_Inl: "sol_fun x = Inl e \<Longrightarrow> \<not> is_NameError e"
  by (auto simp add: sol_fun_def tmul_def dest!: bindE_Inl columns_Inl broadcast2_Inl)

lemma source_fun_Inl: "source_fun x = Inl e \<Longrightarrow> \<not> is_NameError e"
  by (auto simp add: source_fun_def tmul_def dest!: bindE_Inl columns_Inl broadcast2_Inl)

lemma tsub_Inl: "tsub a b = Inl e \<Longrightarrow> \<not> is_NameError e"
  by (auto simp add: tsub_def dest!: broadcast2_Inl)


lemma hoare_seq_known:
  assumes "hoare I' p M E P" "\<And>g. I g \<Longrightarrow> I' g" "\<And>a. hoare (M a) (k a) Q E P"
  shows "hoare I (bindP p k) Q E P"
  by (rule hoare_bind [OF hoare_pre [OF assms(1) assms(2)] assms(3)])

lemma hoare_fix_state:
  assumes "\<And>g0. I g0 \<Longrightarrow> hoare (\<lambda>g. g = g0) (F g0) Q E P" "\<And>g tr. p (g, tr) = F g (g, tr)"
  shows "hoare I p Q E P"
proof (rule hoareI)
  fix g tr r g' tr'
  assume I: "I g" and run: "p (g, tr) = (r, g', tr')"
  from run assms(2) have "F g (g, tr) = (r, g', tr')" by simp
  from hoareD [OF assms(1) [OF I] refl this]
  show "(\<exists>new. tr' = tr @ new \<and> list_all (\<lambda>ev. is_Raised ev \<or> P ev) new \<and> ends_with r new)
         \<and> (case r of Inr a \<Rightarrow> Q a g' | Inl e \<Rightarrow> E e g')" .
qed

lemma hoare_forP_inv:
  assumes "\<And>x. x \<in> set xs \<Longrightarrow> hoare J (body x) (\<lambda>_. J) E P"
  shows "hoare J (forP xs body) (\<lambda>_. J) E P"
  using assms
proof (induction xs)
  case Nil
  show ?case by (simp add: hoare_ret)
next
  case (Cons x xs)
  show ?case
    unfolding forP.simps thenP_def
    by (rule hoare_bind [where M = "\<lambda>_. J"]) (simp_all add: Cons)
qed

lemma hoare_forP_est:
  assumes body: "\<And>x. x \<in> set xs \<Longrightarrow> hoare I (body x) (\<lambda>_. J) E P" and JI: "\<And>g. J g \<Longrightarrow> I g"
  shows "hoare I (forP xs body) (\<lambda>_ g. if xs = [] then I g else J g) E P"
proof (cases xs)
  case Nil
  then show ?thesis by (simp add: hoare_ret)
next
  case (Cons x xs')
  have "hoare J (forP xs' body) (\<lambda>_. J) E P"
    by (rule hoare_forP_inv) (rule hoare_pre [OF body JI], simp_all add: Cons)
  then show ?thesis
    unfolding Cons forP.simps thenP_def
    by (simp add: hoare_bind [where M = "\<lambda>_. J"] body Cons)
qed

lemma hoare_case_prod:
  assumes "\<And>g0. I g0 \<Longrightarrow> hoare (\<lambda>g. g = g0) (F g0) Q E P"
  shows "hoare I (\<lambda>(g, tr). F g (g, tr)) Q E P"
  by (rule hoare_fix_state [where F = F]) (simp_all add: assms)


lemma ret_apply [simp]: "ret a (g, tr) = (Inr a, g, tr)"
  by (simp add: ret_def)
lemma raise_apply [simp]: "raise e (g, tr) = (Inl e, g, tr @ [Raised e])"
  by (simp add: raise_def)
lemma emit_apply [simp]: "emit ev (g, tr) = (Inr (), g, tr @ [ev])"
  by (simp add: emit_def)
lemma get_apply [simp]: "get f (g, tr) = (Inr (f g), g, tr)"
  by (simp add: get_def)
lemma modify_apply [simp]: "modify u (g, tr) = (Inr (), u g, tr)"
  by (simp add: modify_def)
lemma lift_apply [simp]:
  "lift r (g, tr) = (case r of Inl e \<Rightarrow> (Inl e, g, tr @ [Raised e]) | Inr a \<Rightarrow> (Inr a, g, tr))"
  by (simp add: lift_def split: sum.splits)
lemma read_global_apply [simp]:
  "read_global n f (g, tr) =
     (case f g of None \<Rightarrow> (Inl (NameError n), g, tr @ [Raised (NameError n)]) | Some v \<Rightarrow> (Inr v, g, tr))"
  by (simp add: read_global_def split: option.splits)
lemma bindP_apply:
  "bindP p f c = (case p c of (Inl e, g, tr) \<Rightarrow> (Inl e, g, tr) | (Inr a, g, tr) \<Rightarrow> f a (g, tr))"
  by (simp add: bindP_def)
lemma thenP_apply:
  "thenP p q c = (case p c of (Inl e, g, tr) \<Rightarrow> (Inl e, g, tr) | (Inr a, g, tr) \<Rightarrow> q (g, tr))"
  by (simp add: thenP_def bindP_def)
lemma call_apply [simp]:
  "call ev r (g, tr) =
     (case r of Inl e \<Rightarrow> (Inl (LibraryError e), g, tr @ [ev, Raised (LibraryError e)])
              | Inr a \<Rightarrow> (Inr a, g, tr @ [ev]))"
  by (simp add: call_def thenP_apply split: sum.splits)
lemma update_model_apply [simp]:
  "update_model ev f (g, tr) =
     (case f (model g) of Inl e \<Rightarrow> (Inl (LibraryError e), g, tr @ [ev, Raised (LibraryError e)])
                        | Inr m' \<Rightarrow> (Inr (), g\<lparr>model := m'\<rparr>, tr @ [ev]))"
  by (simp add: update_model_def bindP_apply split: sum.splits)


subsection \<open>Library operations that call the notebook back\<close>

lemma model_fun_apply [simp]:
  "model_fun L x (g, tr) =
     (case forward L (model g) x of
        Inl e \<Rightarrow> (Inl (LibraryError e), g, tr @ [Call_model x, Raised (LibraryError e)])
      | Inr y \<Rightarrow> (Inr y, g, tr @ [Call_model x]))"
  by (simp add: model_fun_def bindP_apply split: sum.splits)


text \<open>
  A statement that leaves the globals as they are: from the globals \<open>g0\<close> it returns a value
  that satisfies \<open>S g0\<close> or raises an exception that satisfies \<open>ok\<close>.
\<close>

lemma hoare_unpin:
  assumes base: "\<And>g0. hoare (\<lambda>g. g = g0) p (\<lambda>a g. g = g0 \<and> S g0 a) (\<lambda>e g. g = g0 \<and> ok e) P0"
    and ev: "\<And>g ev. I g \<Longrightarrow> P0 ev \<Longrightarrow> P ev"
    and ex: "\<And>g e. I g \<Longrightarrow> ok e \<Longrightarrow> E e g"
  shows "hoare I p (\<lambda>a g. I g \<and> S g a) E P"
proof (rule hoareI)
  fix g tr r g' tr'
  assume I: "I g" and run: "p (g, tr) = (r, g', tr')"
  from hoareD [OF base refl run] obtain new where
    n: "tr' = tr @ new" "list_all (\<lambda>ev. is_Raised ev \<or> P0 ev) new" "ends_with r new"
    and post: "case r of Inr a \<Rightarrow> g' = g \<and> S g a | Inl e \<Rightarrow> g' = g \<and> ok e" by blast
  from n(2) ev [OF I] have "list_all (\<lambda>ev. is_Raised ev \<or> P ev) new"
    by (auto simp add: list_all_iff)
  with n post I ex [OF I]
  show "(\<exists>new. tr' = tr @ new \<and> list_all (\<lambda>ev. is_Raised ev \<or> P ev) new \<and> ends_with r new)
         \<and> (case r of Inr a \<Rightarrow> I g' \<and> S g' a | Inl e \<Rightarrow> E e g')"
    by (auto split: sum.splits)
qed

lemma hoare_seq_pinned:
  assumes base: "\<And>g0. hoare (\<lambda>g. g = g0) p (\<lambda>a g. g = g0 \<and> S g0 a) (\<lambda>e g. g = g0 \<and> ok e) P0"
    and ev: "\<And>g ev. I g \<Longrightarrow> P0 ev \<Longrightarrow> P ev"
    and ex: "\<And>g e. I g \<Longrightarrow> ok e \<Longrightarrow> E e g"
    and k: "\<And>a. hoare (\<lambda>g. I g \<and> S g a) (k a) Q E P"
  shows "hoare I (bindP p k) Q E P"
  by (rule hoare_bind [OF hoare_unpin [OF base ev ex] k])

lemma model_fun_pinned:
  "hoare (\<lambda>g. g = g0) (model_fun L x)
     (\<lambda>y g. g = g0 \<and> forward L (model g0) x = Inr y)
     (\<lambda>e g. g = g0 \<and> \<not> is_NameError e) (\<lambda>ev. ev = Call_model x)"
  by (rule hoareI) (auto simp add: ends_with_def split: sum.splits)

lemma model_fun_called_back:
  "hoare (\<lambda>g. g = g0) (model_fun L x)
     (\<lambda>y g. g = g0 \<and> forward L (model g0) x = Inr y)
     (\<lambda>e g. g = g0 \<and> \<not> is_NameError e) (jacobian_event L x)"
  by (rule hoare_post [OF model_fun_pinned]) (simp_all add: jacobian_event_def)

lemma func_sum_pinned:
  assumes "hoare (\<lambda>g. g = g0) (func x) (\<lambda>y g. g = g0 \<and> S y) (\<lambda>e g. g = g0 \<and> ok e) P"
  shows "hoare (\<lambda>g. g = g0) (func_sum func x) (\<lambda>s g. g = g0) (\<lambda>e g. g = g0 \<and> ok e) P"
  unfolding func_sum_def
  by (rule hoare_bind [OF assms]) (rule hoare_ret, simp)

lemma jacobian_event_at:
  "jacobian_at_input L \<longrightarrow> x' = x \<Longrightarrow> jacobian_event L x' ev \<Longrightarrow> jacobian_event L x ev"
  by (auto simp add: jacobian_event_def)

lemma autograd_jacobian_pinned:
  assumes cb: "\<And>x'. (jacobian_at_input L \<longrightarrow> x' = x) \<Longrightarrow>
      hoare (\<lambda>g. g = g0) (f x') (\<lambda>s g. g = g0) (\<lambda>e g. g = g0 \<and> \<not> is_NameError e) (jacobian_event L x')"
  shows "hoare (\<lambda>g. g = g0) (autograd_jacobian L f x)
     (\<lambda>j g. g = g0 \<and> (\<exists>calls. jacobian L (run_fun f g0) x = (calls, Inr j)))
     (\<lambda>e g. g = g0 \<and> \<not> is_NameError e) (jacobian_event L x)"
proof (rule hoareI)
  fix g tr r g' tr'
  assume g: "g = g0" and run: "autograd_jacobian L f x (g, tr) = (r, g', tr')"
  obtain calls outcome where jac: "jacobian L (run_fun f g0) x = (calls, outcome)"
    by (cases "jacobian L (run_fun f g0) x") auto
  have at: "jacobian_at_input L \<longrightarrow> x' = x" if "x' \<in> set calls" for x'
  proof
    assume "jacobian_at_input L"
    then have "fst (jacobian L (run_fun f g0) x) = [x]" by (simp add: jacobian_at_input_def)
    with jac that show "x' = x" by simp
  qed
  have body: "hoare (\<lambda>g. g = g0) (thenP (f x') (ret ())) (\<lambda>_ g. g = g0)
      (\<lambda>e g. g = g0 \<and> \<not> is_NameError e) (jacobian_event L x)" if "x' \<in> set calls" for x'
    unfolding thenP_def
    apply (rule hoare_bind [where M = "\<lambda>s g. g = g0"])
     apply (rule hoare_post [OF cb [OF at [OF that]]])
       apply simp
      apply simp
     apply (erule jacobian_event_at [OF at [OF that]])
    apply (rule hoare_ret)
    apply simp
    done
  have loop: "hoare (\<lambda>g. g = g0) (forP calls (\<lambda>x'. thenP (f x') (ret ()))) (\<lambda>_ g. g = g0)
      (\<lambda>e g. g = g0 \<and> \<not> is_NameError e) (jacobian_event L x)"
    by (rule hoare_forP_inv) (rule body)
  have whole: "hoare (\<lambda>g. g = g0)
     (thenP (emit (Call_jacobian x))
       (thenP (forP calls (\<lambda>x'. thenP (f x') (ret ())))
              (case outcome of Inl e \<Rightarrow> raise (LibraryError e) | Inr j \<Rightarrow> ret j)))
     (\<lambda>j g. g = g0 \<and> (\<exists>calls. jacobian L (run_fun f g0) x = (calls, Inr j)))
     (\<lambda>e g. g = g0 \<and> \<not> is_NameError e) (jacobian_event L x)"
    unfolding thenP_def
    apply (rule hoare_seq_emit)
     apply (simp add: jacobian_event_def)
    apply (rule hoare_bind [OF loop [unfolded thenP_def]])
    apply (cases outcome)
     apply (simp add: hoare_raise)
    apply (simp add: hoare_ret jac)
    done
  from run g jac have "thenP (emit (Call_jacobian x))
       (thenP (forP calls (\<lambda>x'. thenP (f x') (ret ())))
              (case outcome of Inl e \<Rightarrow> raise (LibraryError e) | Inr j \<Rightarrow> ret j)) (g, tr) = (r, g', tr')"
    by (simp add: autograd_jacobian_def)
  from hoareD [OF whole g this]
  show "(\<exists>new. tr' = tr @ new \<and> list_all (\<lambda>ev. is_Raised ev \<or> jacobian_event L x ev) new \<and> ends_with r new)
         \<and> (case r of Inr j \<Rightarrow> g' = g0 \<and> (\<exists>calls. jacobian L (run_fun f g0) x = (calls, Inr j))
             | Inl e \<Rightarrow> g' = g0 \<and> \<not> is_NameError e)" .
qed

lemma batch_jacobian_pinned:
  assumes cb: "\<And>x'. (jacobian_at_input L \<longrightarrow> x' = x) \<Longrightarrow>
      hoare (\<lambda>g. g = g0) (func x') (\<lambda>y g. g = g0 \<and> S x' y) (\<lambda>e g. g = g0 \<and> \<not> is_NameError e)
        (jacobian_event L x')"
  shows "hoare (\<lambda>g. g = g0) (batch_jacobian L func x)
     (\<lambda>j g. g = g0 \<and> (\<exists>calls J. jacobian L (run_fun (func_sum func) g0) x = (calls, Inr J)
        \<and> j = permute102 J))
     (\<lambda>e g. g = g0 \<and> \<not> is_NameError e) (jacobian_event L x)"
  unfolding batch_jacobian_def
  apply (rule hoare_bind [OF autograd_jacobian_pinned])
   apply (rule func_sum_pinned [where S = "S x'" for x'])
   apply (erule cb)
  apply (rule hoare_ret)
  apply auto
  done

lemma sol_D1_fun_pinned:
  "hoare (\<lambda>g. g = g0) (sol_D1_fun L x)
     (\<lambda>d g. g = g0 \<and> first_derivative L g0 x d)
     (\<lambda>e g. g = g0 \<and> \<not> is_NameError e) (jacobian_event L x)"
  unfolding sol_D1_fun_def
  apply (rule hoare_bind [OF batch_jacobian_pinned [where S = "\<lambda>x' y. forward L (model g0) x' = Inr y"]])
   apply (rule model_fun_called_back)
  apply (rule hoare_lift)
   apply (auto simp add: first_derivative_def dest: column_Inl)
  done

lemma hessian_pinned:
  "hoare (\<lambda>g. g = g0) (batch_jacobian L (sol_D1_fun L) x)
     (\<lambda>H g. g = g0 \<and> second_derivative L g0 x H)
     (\<lambda>e g. g = g0 \<and> \<not> is_NameError e) (jacobian_event L x)"
  apply (rule hoare_post [OF batch_jacobian_pinned [where S = "\<lambda>x' d. first_derivative L g0 x' d"]])
     apply (rule sol_D1_fun_pinned)
    apply (auto simp add: second_derivative_def)
  done

lemmas hoare_seq_model_fun = hoare_seq_pinned [OF model_fun_pinned]
lemmas hoare_seq_sol_D1_fun = hoare_seq_pinned [OF sol_D1_fun_pinned]
lemmas hoare_seq_hessian = hoare_seq_pinned [OF hessian_pinned]

lemmas hoare_seq =
  hoare_seq_get hoare_seq_ret hoare_seq_emit hoare_seq_modify hoare_seq_lift hoare_seq_call
  hoare_seq_read_global hoare_seq_update_model hoare_seq_model_fun hoare_seq_sol_D1_fun
  hoare_seq_hessian

lemma jacobian_event_closure: "jacobian_event L xi ev \<Longrightarrow> closure_event L xi xb ev"
  by (simp add: closure_event_def)

lemma jacobian_event_boundary: "jacobian_event L xb (Call_model x) \<Longrightarrow> jacobian_at_input L \<longrightarrow> x = xb"
  by (simp add: jacobian_event_def)

lemma closure_hoare:
  "hoare (frame xi xb fo va) (closure L)
     (\<lambda>a g. frame xi xb fo va g \<and> bound g)
     (\<lambda>e g. frame xi xb fo va g \<and> \<not> is_NameError e)
     (closure_event L xi xb)"
  unfolding closure_def thenP_def
  apply (intro hoare_seq hoare_ret)
  apply (auto simp add: frame_def bound_def closure_event_def jacobian_event_def
      dest: sol_fun_Inl source_fun_Inl tsub_Inl)
  done

subsection \<open>The training loop\<close>

lemma closure_fit_hoare:
  "hoare (frame xi xb fo va) (closure L)
     (\<lambda>a g. frame xi xb fo va g \<and> bound g)
     (\<lambda>e g. frame xi xb fo va g \<and> (step_calls_closure L \<longrightarrow> \<not> is_NameError e))
     (fit_event L xi xb)"
  by (rule hoare_post [OF closure_hoare]) (simp_all add: fit_event_def)

lemma evaluate_closure_hoare:
  "hoare (frame xi xb fo va) (evaluate_closure L mc)
     (\<lambda>a g. frame xi xb fo va g \<and> bound g)
     (\<lambda>e g. frame xi xb fo va g \<and> (step_calls_closure L \<longrightarrow> \<not> is_NameError e))
     (fit_event L xi xb)"
  unfolding evaluate_closure_def thenP_def
  apply (rule hoare_seq_modify)
  apply (rule hoare_seq_known [OF closure_fit_hoare])
   apply (auto simp add: frame_def intro!: hoare_ret)
  done

lemma finish_step_hoare:
  "hoare (\<lambda>g. frame xi xb fo va g \<and> (c \<longrightarrow> bound g)) (finish_step outcome)
     (\<lambda>a g. frame xi xb fo va g \<and> (c \<longrightarrow> bound g))
     (\<lambda>e g. frame xi xb fo va g \<and> (step_calls_closure L \<longrightarrow> \<not> is_NameError e))
     (fit_event L xi xb)"
  unfolding finish_step_def thenP_def
  by (cases outcome)
    (auto simp add: frame_def bound_def intro!: hoare_raise hoare_seq_modify hoare_ret)

lemma optimizer_step_hoare:
  "hoare (frame xi xb fo va) (optimizer_step L opt)
     (\<lambda>a g. frame xi xb fo va g \<and> (step_calls_closure L \<longrightarrow> bound g))
     (\<lambda>e g. frame xi xb fo va g \<and> (step_calls_closure L \<longrightarrow> \<not> is_NameError e))
     (fit_event L xi xb)"
  unfolding optimizer_step_def
proof (rule hoare_case_prod)
  fix g0 :: "('a, 'b, 'c) globals"
  assume fr: "frame xi xb fo va g0"
  obtain calls outcome where st: "step L opt (closure_fun L g0) (model g0) = (calls, outcome)"
    by (cases "step L opt (closure_fun L g0) (model g0)") auto
  have calls: "step_calls_closure L \<Longrightarrow> calls \<noteq> []"
    using st unfolding step_calls_closure_def by (metis fst_conv)
  have loop: "hoare (frame xi xb fo va) (forP calls (evaluate_closure L))
     (\<lambda>_ g. if calls = [] then frame xi xb fo va g else frame xi xb fo va g \<and> bound g)
     (\<lambda>e g. frame xi xb fo va g \<and> (step_calls_closure L \<longrightarrow> \<not> is_NameError e))
     (fit_event L xi xb)"
    by (rule hoare_forP_est) (simp_all add: evaluate_closure_hoare)
  have "hoare (\<lambda>g. g = g0)
     (thenP (emit (Call_step opt)) (thenP (forP calls (evaluate_closure L)) (finish_step outcome)))
     (\<lambda>a g. frame xi xb fo va g \<and> (step_calls_closure L \<longrightarrow> bound g))
     (\<lambda>e g. frame xi xb fo va g \<and> (step_calls_closure L \<longrightarrow> \<not> is_NameError e))
     (fit_event L xi xb)"
    unfolding thenP_def
    apply (rule hoare_seq_emit)
     apply (simp add: fit_event_def)
    apply (rule hoare_seq_known [OF loop])
     apply (simp add: fr)
    apply (rule hoare_post [OF hoare_pre [OF finish_step_hoare [where c = "calls \<noteq> []"]]])
    using calls apply (auto split: if_splits)
    done
  then show "hoare (\<lambda>g. g = g0)
     (case step L opt (closure_fun L g0) (model g0) of
        (calls, outcome) \<Rightarrow>
          thenP (emit (Call_step opt)) (thenP (forP calls (evaluate_closure L)) (finish_step outcome)))
     (\<lambda>a g. frame xi xb fo va g \<and> (step_calls_closure L \<longrightarrow> bound g))
     (\<lambda>e g. frame xi xb fo va g \<and> (step_calls_closure L \<longrightarrow> \<not> is_NameError e))
     (fit_event L xi xb)"
    by (simp add: st)
qed

lemma grid_update_hoare:
  "hoare (frame xi xb fo va) (grid_update L i)
     (\<lambda>a g. frame xi xb fo va g)
     (\<lambda>e g. frame xi xb fo va g \<and> (step_calls_closure L \<longrightarrow> \<not> is_NameError e))
     (fit_event L xi xb)"
  unfolding grid_update_def
  apply (intro hoare_if hoare_seq hoare_update_model hoare_ret)
  apply (auto simp add: frame_def fit_event_def)
  done

lemma report_hoare:
  "hoare (\<lambda>g. frame xi xb fo va g \<and> (step_calls_closure L \<longrightarrow> bound g)) (report L i)
     (\<lambda>a g. frame xi xb fo va g)
     (\<lambda>e g. frame xi xb fo va g \<and> (step_calls_closure L \<longrightarrow> \<not> is_NameError e))
     (fit_event L xi xb)"
  unfolding report_def
  apply (intro hoare_if hoare_seq hoare_emit hoare_ret)
  apply (auto simp add: frame_def fit_event_def bound_def
      dest: sol_fun_Inl tsub_Inl)
  done

lemma fit_body_hoare:
  "hoare (frame xi xb fo va) (fit_body L opt i)
     (\<lambda>a g. frame xi xb fo va g)
     (\<lambda>e g. frame xi xb fo va g \<and> (step_calls_closure L \<longrightarrow> \<not> is_NameError e))
     (fit_event L xi xb)"
  unfolding fit_body_def thenP_def
  apply (rule hoare_seq_emit)
   apply (simp add: fit_event_def)
  apply (rule hoare_seq_known [OF grid_update_hoare])
   apply simp
  apply (rule hoare_seq_known [OF optimizer_step_hoare])
   apply simp
  apply (rule hoare_seq_known [OF report_hoare])
   apply simp
  apply (rule hoare_ret)
  apply simp
  done

lemma fit_loop_hoare:
  "hoare (frame xi xb fo va) (fit_loop L opt is)
     (\<lambda>a g. frame xi xb fo va g)
     (\<lambda>e g. frame xi xb fo va g \<and> (step_calls_closure L \<longrightarrow> \<not> is_NameError e))
     (fit_event L xi xb)"
proof (induction "is" arbitrary: opt)
  case Nil
  show ?case by (simp add: hoare_ret)
next
  case (Cons i "is")
  show ?case
    unfolding fit_loop.simps
    by (rule hoare_bind [OF fit_body_hoare]) (rule Cons.IH)
qed

lemma fit_hoare:
  "hoare (frame xi xb fo va) (fit L)
     (\<lambda>a g. frame xi xb fo va g)
     (\<lambda>e g. frame xi xb fo va g \<and> (step_calls_closure L \<longrightarrow> \<not> is_NameError e))
     (fit_event L xi xb)"
  unfolding fit_def
  apply (rule hoare_seq_get)
  apply (rule hoare_seq_call)
    apply (simp add: fit_event_def)
   apply simp
  apply (rule hoare_pre [OF fit_loop_hoare])
  apply simp
  done

subsection \<open>The cells\<close>


lemma hoare_sampled:
  assumes "\<And>fo va. hoare (frame xi xb fo va) p (\<lambda>a. frame xi xb fo va)
             (\<lambda>e g. frame xi xb fo va g \<and> ok e) P"
    and "\<And>ev. P ev \<Longrightarrow> P' ev"
  shows "hoare (sampled xi xb) p (\<lambda>a. sampled xi xb) (\<lambda>e g. sampled xi xb g \<and> ok e) P'"
proof (rule hoareI)
  fix g :: "('c, 'a, 'b) globals" and tr r g' tr'
  assume "sampled xi xb g" and run: "p (g, tr) = (r, g', tr')"
  then have "frame xi xb (formula g) (var g) g" by (simp add: sampled_def frame_def)
  from hoareD [OF hoare_post [OF assms(1)] this run, of "\<lambda>a. sampled xi xb" "\<lambda>e g. sampled xi xb g \<and> ok e" P']
  show "(\<exists>new. tr' = tr @ new \<and> list_all (\<lambda>ev. is_Raised ev \<or> P' ev) new \<and> ends_with r new)
         \<and> (case r of Inr a \<Rightarrow> sampled xi xb g' | Inl e \<Rightarrow> sampled xi xb g' \<and> ok e)"
    using assms(2) by (simp add: sampled_def frame_def)
qed

lemma fit_sampled:
  "hoare (sampled xi xb) (fit L) (\<lambda>a. sampled xi xb)
     (\<lambda>e g. sampled xi xb g \<and> (step_calls_closure L \<longrightarrow> \<not> is_NameError e)) (notebook_event L xi xb)"
  by (rule hoare_sampled [OF fit_hoare]) (simp add: notebook_event_def)

lemma cell_plot_sampled:
  "hoare (sampled xi xb) (cell_plot L) (\<lambda>a. sampled xi xb)
     (\<lambda>e g. sampled xi xb g \<and> (step_calls_closure L \<longrightarrow> \<not> is_NameError e)) (notebook_event L xi xb)"
  unfolding cell_plot_def
  apply (intro hoare_seq hoare_call)
  apply (auto simp add: notebook_event_def)
  done

lemma cell_fix_sampled:
  "hoare (sampled xi xb) (cell_fix L) (\<lambda>a. sampled xi xb)
     (\<lambda>e g. sampled xi xb g \<and> (step_calls_closure L \<longrightarrow> \<not> is_NameError e)) (notebook_event L xi xb)"
  unfolding cell_fix_def thenP_def
  apply (rule hoare_bind [where M = "\<lambda>a. sampled xi xb"])
   apply (intro hoare_forP_inv hoare_update_model)
     apply (auto simp add: notebook_event_def sampled_def)[3]
  apply (intro hoare_forP_inv hoare_update_model)
    apply (auto simp add: notebook_event_def sampled_def)
  done

lemma cell_formula_sampled:
  "hoare (sampled xi xb) (cell_formula L) (\<lambda>a. sampled xi xb)
     (\<lambda>e g. sampled xi xb g \<and> (step_calls_closure L \<longrightarrow> \<not> is_NameError e)) (notebook_event L xi xb)"
  unfolding cell_formula_def
  apply (intro hoare_seq)
    apply (simp add: notebook_event_def)
   apply simp
  apply (auto simp add: sampled_def split: prod.splits intro!: hoare_modify)
  done

lemma cells_sampled:
  "hoare (sampled xi xb) (cells L) (\<lambda>a. sampled xi xb)
     (\<lambda>e g. sampled xi xb g \<and> (step_calls_closure L \<longrightarrow> \<not> is_NameError e)) (notebook_event L xi xb)"
  unfolding cells_def thenP_def
  by (intro hoare_bind [OF fit_sampled] hoare_bind [OF cell_plot_sampled]
      hoare_bind [OF cell_fix_sampled] cell_formula_sampled)


lemma optimizer_step_apply:
  "optimizer_step L opt (g, tr) =
     (case step L opt (closure_fun L g) (model g) of
        (calls, outcome) \<Rightarrow>
          thenP (forP calls (evaluate_closure L)) (finish_step outcome) (g, tr @ [Call_step opt]))"
  by (simp add: optimizer_step_def thenP_apply split: prod.splits)
subsection \<open>Stages of the programs\<close>


lemma stage_runI:
  assumes "\<And>g tr r g' tr'. p (g, tr) = (r, g', tr') \<Longrightarrow>
     \<exists>new. tr' = tr @ new \<and> (case r of Inr a \<Rightarrow> stages new = S | Inl e \<Rightarrow> stages new \<in> set F)"
  shows "stage_run p S F"
  unfolding stage_run_def
proof (intro allI)
  fix g tr
  show "case p (g, tr) of (r, g', tr') \<Rightarrow>
        \<exists>new. tr' = tr @ new \<and> (case r of Inr a \<Rightarrow> stages new = S | Inl e \<Rightarrow> stages new \<in> set F)"
    using assms [of g tr] by (cases "p (g, tr)") simp
qed

lemma stage_runD:
  assumes "stage_run p S F" "p (g, tr) = (r, g', tr')"
  shows "\<exists>new. tr' = tr @ new \<and> (case r of Inr a \<Rightarrow> stages new = S | Inl e \<Rightarrow> stages new \<in> set F)"
proof -
  have "case p (g, tr) of (r, g', tr') \<Rightarrow>
        \<exists>new. tr' = tr @ new \<and> (case r of Inr a \<Rightarrow> stages new = S | Inl e \<Rightarrow> stages new \<in> set F)"
    by (rule assms(1) [unfolded stage_run_def, rule_format])
  with assms(2) show ?thesis by simp
qed

lemma stages_append [simp]: "stages (a @ b) = stages a @ stages b"
  by (induction a) (simp_all split: option.splits)

lemma stage_run_bind:
  assumes p: "stage_run p S1 F1" and k: "\<And>a. stage_run (k a) S2 F2"
  shows "stage_run (bindP p k) (S1 @ S2) (F1 @ map ((@) S1) F2)"
proof (rule stage_runI)
  fix g tr r g' tr'
  assume run: "bindP p k (g, tr) = (r, g', tr')"
  obtain r1 g1 tr1 where p1: "p (g, tr) = (r1, g1, tr1)" by (cases "p (g, tr)") auto
  from stage_runD [OF p p1] obtain n1 where
    n1: "tr1 = tr @ n1" "case r1 of Inr a \<Rightarrow> stages n1 = S1 | Inl e \<Rightarrow> stages n1 \<in> set F1" by blast
  show "\<exists>new. tr' = tr @ new \<and>
      (case r of Inr a \<Rightarrow> stages new = S1 @ S2 | Inl e \<Rightarrow> stages new \<in> set (F1 @ map ((@) S1) F2))"
  proof (cases r1)
    case (Inl e)
    with run p1 have "r = Inl e" "tr' = tr1" by (simp_all add: bindP_def)
    with n1 Inl show ?thesis by auto
  next
    case (Inr a)
    with run p1 have "k a (g1, tr1) = (r, g', tr')" by (simp add: bindP_def)
    from stage_runD [OF k this] obtain n2 where
      n2: "tr' = tr1 @ n2" "case r of Inr a \<Rightarrow> stages n2 = S2 | Inl e \<Rightarrow> stages n2 \<in> set F2" by blast
    from n1 Inr have "stages n1 = S1" by simp
    with n1 n2 have "tr' = tr @ (n1 @ n2)"
      "case r of Inr a \<Rightarrow> stages (n1 @ n2) = S1 @ S2
               | Inl e \<Rightarrow> stages (n1 @ n2) \<in> set (F1 @ map ((@) S1) F2)"
      by (auto split: sum.splits)
    then show ?thesis by blast
  qed
qed

lemma stage_run_weaken:
  assumes "stage_run p S F" "set F \<subseteq> set F'"
  shows "stage_run p S F'"
proof (rule stage_runI)
  fix g tr r g' tr'
  assume "p (g, tr) = (r, g', tr')"
  from stage_runD [OF assms(1) this] assms(2)
  show "\<exists>new. tr' = tr @ new \<and> (case r of Inr a \<Rightarrow> stages new = S | Inl e \<Rightarrow> stages new \<in> set F')"
    by (auto split: sum.splits)
qed

lemma stage_run_seq:
  assumes "stage_run p S1 F1" "\<And>a. stage_run (k a) S2 F2" "S = S1 @ S2"
    "set (F1 @ map ((@) S1) F2) \<subseteq> set F"
  shows "stage_run (bindP p k) S F"
  using stage_run_weaken [OF stage_run_bind [OF assms(1,2)] assms(4)] assms(3) by simp

text \<open>Statements that cannot raise.\<close>

lemma stage_run_ret: "stage_run (ret a) [] []"
  by (rule stage_runI) (auto simp add: ret_def)

lemma stage_run_get: "stage_run (get f) [] []"
  by (rule stage_runI) (auto simp add: get_def)

lemma stage_run_modify: "stage_run (modify u) [] []"
  by (rule stage_runI) (auto simp add: modify_def)

lemma stage_run_emit: "stage_run (emit ev) (stages [ev]) []"
  by (rule stage_runI) (auto simp add: emit_def)

text \<open>Statements that can.\<close>

lemma stage_run_lift: "stage_run (lift r) [] [[]]"
  by (rule stage_runI) (auto simp add: lift_def split: sum.splits)

lemma stage_run_read_global: "stage_run (read_global n f) [] [[]]"
  by (rule stage_runI) (auto simp add: read_global_def split: option.splits)

lemma stage_run_call: "stage_run (call ev r) (stages [ev]) [stages [ev]]"
  by (rule stage_runI) (auto simp add: bindP_apply thenP_apply split: sum.splits option.splits)

lemma stage_run_update_model: "stage_run (update_model ev f) (stages [ev]) [stages [ev]]"
  by (rule stage_runI) (auto simp add: bindP_apply thenP_apply split: sum.splits option.splits)

text \<open>Programs that reach no stage.\<close>

lemma quiet_bind: "quiet p \<Longrightarrow> (\<And>a. quiet (k a)) \<Longrightarrow> quiet (bindP p k)"
  unfolding quiet_def
  by (rule stage_run_seq [where ?S1.0 = "[]" and ?F1.0 = "[[]]" and ?S2.0 = "[]" and ?F2.0 = "[[]]"])
    simp_all

lemma quiet_if: "(c \<Longrightarrow> quiet p) \<Longrightarrow> (\<not> c \<Longrightarrow> quiet q) \<Longrightarrow> quiet (if c then p else q)"
  by simp

lemma quiet_ret: "quiet (ret a)"
  unfolding quiet_def by (rule stage_run_weaken [OF stage_run_ret]) simp

lemma quiet_get: "quiet (get f)"
  unfolding quiet_def by (rule stage_run_weaken [OF stage_run_get]) simp

lemma quiet_modify: "quiet (modify u)"
  unfolding quiet_def by (rule stage_run_weaken [OF stage_run_modify]) simp

lemma quiet_lift: "quiet (lift r)"
  unfolding quiet_def by (rule stage_run_lift)

lemma quiet_read_global: "quiet (read_global n f)"
  unfolding quiet_def by (rule stage_run_read_global)

lemmas quiet_simple = quiet_ret quiet_get quiet_modify quiet_lift quiet_read_global

lemma quiet_emit: "stage_of ev = None \<Longrightarrow> quiet (emit ev)"
  unfolding quiet_def
  using stage_run_weaken [OF stage_run_emit [of ev], where F' = "[[]]"] by simp

lemma quiet_call: "stage_of ev = None \<Longrightarrow> quiet (call ev r)"
  unfolding quiet_def using stage_run_call [of ev r] by simp

lemma quiet_update_model: "stage_of ev = None \<Longrightarrow> quiet (update_model ev f)"
  unfolding quiet_def using stage_run_update_model [of ev f] by simp

lemma quiet_forP: "(\<And>x. quiet (body x)) \<Longrightarrow> quiet (forP xs body)"
  by (induction xs) (simp_all add: quiet_simple thenP_def quiet_bind)


lemma quiet_raise: "quiet (raise e)"
  unfolding quiet_def by (rule stage_runI) (auto simp add: raise_def)

lemma quiet_model_fun: "quiet (model_fun L x)"
  unfolding model_fun_def by (intro quiet_bind quiet_simple quiet_call) simp

lemma quiet_outcome:
  "quiet (case outcome of Inl e \<Rightarrow> raise (LibraryError e) | Inr j \<Rightarrow> ret j)"
  by (cases outcome) (simp_all add: quiet_raise quiet_ret)

lemma quiet_autograd_jacobian:
  assumes "\<And>x'. quiet (f x')"
  shows "quiet (autograd_jacobian L f x)"
  unfolding quiet_def
proof (rule stage_runI)
  fix g tr r g' tr'
  assume run: "autograd_jacobian L f x (g, tr) = (r, g', tr')"
  obtain calls outcome where jac: "jacobian L (run_fun f g) x = (calls, outcome)"
    by (cases "jacobian L (run_fun f g) x") auto
  have "quiet (thenP (emit (Call_jacobian x))
       (thenP (forP calls (\<lambda>x'. thenP (f x') (ret ())))
              (case outcome of Inl e \<Rightarrow> raise (LibraryError e) | Inr j \<Rightarrow> ret j)))"
    unfolding thenP_def
    by (intro quiet_bind quiet_forP quiet_emit assms quiet_ret quiet_outcome) simp
  moreover from run jac have "thenP (emit (Call_jacobian x))
       (thenP (forP calls (\<lambda>x'. thenP (f x') (ret ())))
              (case outcome of Inl e \<Rightarrow> raise (LibraryError e) | Inr j \<Rightarrow> ret j)) (g, tr) = (r, g', tr')"
    by (simp add: autograd_jacobian_def)
  ultimately show "\<exists>new. tr' = tr @ new \<and> (case r of Inr a \<Rightarrow> stages new = [] | Inl e \<Rightarrow> stages new \<in> set [[]])"
    unfolding quiet_def by (rule stage_runD)
qed

lemma quiet_batch_jacobian:
  assumes "\<And>x'. quiet (func x')"
  shows "quiet (batch_jacobian L func x)"
  unfolding batch_jacobian_def func_sum_def
  by (intro quiet_bind quiet_autograd_jacobian quiet_ret assms)

lemma quiet_sol_D1_fun: "quiet (sol_D1_fun L x)"
  unfolding sol_D1_fun_def
  by (intro quiet_bind quiet_batch_jacobian quiet_model_fun quiet_lift)

lemma closure_quiet: "quiet (closure L)"
  unfolding closure_def thenP_def
  by (intro quiet_bind quiet_simple quiet_emit quiet_call quiet_update_model
      quiet_sol_D1_fun quiet_batch_jacobian quiet_model_fun) simp_all

lemma report_quiet: "quiet (report L i)"
  unfolding report_def thenP_def
  by (intro quiet_bind quiet_if quiet_simple quiet_emit quiet_call quiet_update_model
      quiet_model_fun) simp_all

lemma stage_run_call_stage: "stage_of ev = Some s \<Longrightarrow> stage_run (call ev r) [s] [[s]]"
  using stage_run_call [of ev r] by simp

lemma stage_run_update_model_stage:
  "stage_of ev = Some s \<Longrightarrow> stage_run (update_model ev f) [s] [[s]]"
  using stage_run_update_model [of ev f] by simp

lemma stage_run_emit_stage: "stage_of ev = Some s \<Longrightarrow> stage_run (emit ev) [s] []"
  using stage_run_emit [of ev] by simp

lemma evaluate_closure_quiet: "quiet (evaluate_closure L mc)"
  unfolding evaluate_closure_def thenP_def
  by (intro quiet_bind quiet_simple closure_quiet)

lemma finish_step_quiet: "quiet (finish_step outcome)"
proof (cases outcome)
  case (Inl e)
  then show ?thesis by (simp add: finish_step_def quiet_raise)
next
  case (Inr mo)
  then show ?thesis
    by (cases mo) (simp add: finish_step_def thenP_def quiet_bind quiet_simple)
qed

lemma optimizer_step_stages: "stage_run (optimizer_step L opt) [Optimizer_stepped] [[Optimizer_stepped]]"
proof (rule stage_runI)
  fix g tr r g' tr'
  assume run: "optimizer_step L opt (g, tr) = (r, g', tr')"
  obtain calls outcome where st: "step L opt (closure_fun L g) (model g) = (calls, outcome)"
    by (cases "step L opt (closure_fun L g) (model g)") auto
  have "quiet (thenP (forP calls (evaluate_closure L)) (finish_step outcome))"
    unfolding thenP_def by (intro quiet_bind quiet_forP evaluate_closure_quiet finish_step_quiet)
  moreover from run st
  have "thenP (forP calls (evaluate_closure L)) (finish_step outcome) (g, tr @ [Call_step opt]) = (r, g', tr')"
    by (simp add: optimizer_step_apply)
  ultimately obtain new where
    "tr' = (tr @ [Call_step opt]) @ new" "case r of Inr a \<Rightarrow> stages new = [] | Inl e \<Rightarrow> stages new \<in> set [[]]"
    unfolding quiet_def by (blast dest: stage_runD)
  then have "tr' = tr @ (Call_step opt # new)"
    "case r of Inr a \<Rightarrow> stages (Call_step opt # new) = [Optimizer_stepped]
             | Inl e \<Rightarrow> stages (Call_step opt # new) \<in> set [[Optimizer_stepped]]"
    by (auto split: sum.splits)
  then show "\<exists>new. tr' = tr @ new \<and>
      (case r of Inr a \<Rightarrow> stages new = [Optimizer_stepped] | Inl e \<Rightarrow> stages new \<in> set [[Optimizer_stepped]])"
    by blast
qed

lemma grid_update_stages:
  "stage_run (grid_update L i) (if i mod 5 = 0 \<and> i < 50 then [Grid_updated] else [])
     [if i mod 5 = 0 \<and> i < 50 then [Grid_updated] else []]"
proof (cases "i mod 5 = 0 \<and> i < 50")
  case True
  have "stage_run (bindP (get x_i) (\<lambda>xi. update_model (Call_update_grid xi) (\<lambda>m. update_grid_from_samples L m xi)))
          [Grid_updated] [[Grid_updated]]"
    by (rule stage_run_seq [OF stage_run_get stage_run_update_model_stage]) simp_all
  then show ?thesis
    unfolding grid_update_def by (simp only: if_P [OF True])
next
  case False
  have "stage_run (ret ()) [] [[]]"
    by (rule stage_run_weaken [OF stage_run_ret]) simp
  then show ?thesis
    unfolding grid_update_def by (simp only: if_not_P [OF False])
qed

lemma fit_body_stages: "stage_run (fit_body L opt i) (body_stages i) (body_failures i)"
proof -
  have tail: "stage_run (bindP (report L i) (\<lambda>_. ret a)) [] [[]]" for a
    using quiet_bind [OF report_quiet quiet_ret] by (simp add: quiet_def)
  have step: "stage_run (bindP (optimizer_step L opt) (\<lambda>optimizer'. bindP (report L i) (\<lambda>_. ret optimizer')))
      ([Optimizer_stepped] @ []) ([[Optimizer_stepped]] @ map ((@) [Optimizer_stepped]) [[]])"
    by (rule stage_run_bind [OF optimizer_step_stages tail])
  show ?thesis
    unfolding fit_body_def thenP_def
    apply (rule stage_run_seq [OF stage_run_emit_stage])
       apply simp
      apply (rule stage_run_bind [OF grid_update_stages step])
     apply (simp add: body_stages_def)
    apply (simp add: body_stages_def body_failures_def)
    done
qed

lemma fit_loop_stages:
  "stage_run (fit_loop L opt is) (concat (map body_stages is)) (loop_failures is)"
proof (induction "is" arbitrary: opt)
  case Nil
  show ?case by (simp add: stage_run_ret)
next
  case (Cons i "is")
  show ?case
    unfolding fit_loop.simps
    by (rule stage_run_seq [OF fit_body_stages Cons.IH]) simp_all
qed

lemma fit_stages: "stage_run (fit L) fit_stages fit_failures"
  unfolding fit_def
  apply (rule stage_run_seq [OF stage_run_get])
    apply (rule stage_run_bind [OF stage_run_call_stage fit_loop_stages])
    apply simp
   apply (simp add: fit_stages_def)
  apply (auto simp add: fit_failures_def)
  done


lemma stage_run_conv:
  assumes "stage_run p S' F'" "S = S'" "set F' \<subseteq> set F"
  shows "stage_run p S F"
  using stage_run_weaken [OF assms(1) assms(3)] assms(2) by simp

lemma cell_plot_stages: "stage_run (cell_plot L) [Plotted] [[Plotted]]"
  unfolding cell_plot_def
  by (rule stage_run_seq [OF stage_run_get stage_run_call_stage]) simp_all

lemma assign_formula_stages:
  "stage_run (case fv of (f, v) \<Rightarrow> modify (\<lambda>g. g\<lparr>formula := Some f, var := Some v\<rparr>)) [] []"
  by (cases fv) (simp add: stage_run_modify)

lemma cell_formula_stages: "stage_run (cell_formula L) [Formula_extracted] [[Formula_extracted]]"
proof -
  have inner: "stage_run (bindP (call Call_symbolic_formula (symbolic_formula L m 5))
      (\<lambda>(f, v). modify (\<lambda>g. g\<lparr>formula := Some f, var := Some v\<rparr>)))
      ([Formula_extracted] @ []) ([[Formula_extracted]] @ map ((@) [Formula_extracted]) [])" for m
    by (rule stage_run_bind [OF stage_run_call_stage assign_formula_stages]) simp
  show ?thesis
    unfolding cell_formula_def
    apply (rule stage_run_seq [OF stage_run_get])
      apply (rule inner)
     apply simp_all
    done
qed

lemma upt_0_2: "[0..<2] = [0, 1]"
  by (simp add: upt_rec)

lemma fix_symbolic_stages:
  "stage_run (update_model (Call_fix_symbolic l i j name) f) [Fixed l i j name] [[Fixed l i j name]]"
  by (rule stage_run_update_model_stage) simp

lemma cell_fix_stages: "stage_run (cell_fix L) fix_stages fix_failures"
  unfolding cell_fix_def upt_0_2 forP.simps thenP_def
  apply (rule stage_run_conv)
    apply (rule stage_run_bind fix_symbolic_stages stage_run_ret)+
   apply (simp add: fix_stages_def)
  apply (simp add: fix_failures_def fix_stages_def upt_rec)
  done

lemma cells_stages: "stage_run (cells L) (fit_stages @ [Plotted] @ fix_stages @ fit_stages @ [Formula_extracted]) cells_failures"
  unfolding cells_def thenP_def
  apply (rule stage_run_conv)
    apply (rule stage_run_bind fit_stages cell_plot_stages cell_fix_stages cell_formula_stages)+
   apply simp
  apply (simp add: cells_failures_def)
  done
subsection \<open>The whole notebook\<close>


lemma bindP_assoc: "bindP (bindP p f) k = bindP p (\<lambda>a. bindP (f a) k)"
  by (rule ext) (auto simp add: bindP_def split: prod.splits sum.splits)

lemma globals_init_hoare:
  "hoare (\<lambda>_. True) (globals_init L)
     (\<lambda>g0 _. \<exists>m u. KAN L = Inr m \<and> rand L (np_i ^ 2) 2 = Inr u \<and>
        g0 = initial m u)
     (\<lambda>e _. \<not> is_NameError e)
     (\<lambda>ev. ev = Call_KAN \<or> ev = Call_rand (np_i ^ 2) 2)"
  unfolding globals_init_def interior_def boundary_eq
  apply (simp only: sampling_mode_def)
  apply (simp add: bindP_assoc)
  apply (intro hoare_seq hoare_ret)
  apply (auto simp add: boundary_points_def initial_def)
  done

lemma globals_init_stages:
  "stage_run (globals_init L) [Model_constructed, Sampled (np_i ^ 2) 2]
     [[Model_constructed], [Model_constructed, Sampled (np_i ^ 2) 2]]"
  unfolding globals_init_def interior_def boundary_eq
  apply (simp only: sampling_mode_def)
  apply (simp add: bindP_assoc)
  apply (rule stage_run_conv)
    apply (rule stage_run_bind stage_run_call stage_run_lift stage_run_ret)+
   apply simp_all
  done


lemma ends_with_Inl:
  "ends_with (Inl e) n = (n \<noteq> [] \<and> last n = Raised e \<and> list_all (\<lambda>ev. \<not> is_Raised ev) (butlast n))"
  by (simp add: ends_with_def)

lemma ends_with_no_later:
  "ends_with (Inr a) n1 \<Longrightarrow> ends_with r n2 \<Longrightarrow> ends_with r (n1 @ n2)"
  by (rule ends_with_append) (simp add: ends_with_def)

lemma notebook_run:
  assumes run: "notebook L = (r, G, tr)"
  shows "ends_with r tr"
    and "step_calls_closure L \<Longrightarrow> r = Inl e \<Longrightarrow> \<not> is_NameError e"
    and "rand L (np_i ^ 2) 2 = Inr u \<Longrightarrow>
           list_all (\<lambda>ev. is_Raised ev \<or> notebook_event L (tmap (\<lambda>v. v * 2 - 1) u) boundary_points ev) tr"
    and "G = Some g \<Longrightarrow>
           \<exists>u. rand L (np_i ^ 2) 2 = Inr u \<and> x_i g = tmap (\<lambda>v. v * 2 - 1) u \<and> x_b g = boundary_points"
proof -
  obtain r0 s0 tr0 where init: "globals_init L ((), []) = (r0, s0, tr0)"
    by (cases "globals_init L ((), [])") auto
  from hoareD [OF globals_init_hoare _ init]
  have tr0: "list_all (\<lambda>ev. is_Raised ev \<or> ev = Call_KAN \<or> ev = Call_rand (np_i ^ 2) 2) tr0"
    "ends_with r0 tr0"
    and post0: "case r0 of
        Inr g0 \<Rightarrow> \<exists>m u. KAN L = Inr m \<and> rand L (np_i ^ 2) 2 = Inr u \<and>
          g0 = initial m u
      | Inl e \<Rightarrow> \<not> is_NameError e"
    by auto
  have ev0: "list_all (\<lambda>ev. is_Raised ev \<or> notebook_event L xi xb ev) tr0" for xi xb
    using tr0(1) by (auto simp add: list_all_iff notebook_event_def)
  have "ends_with r tr
    \<and> (step_calls_closure L \<longrightarrow> r = Inl e \<longrightarrow> \<not> is_NameError e)
    \<and> (rand L (np_i ^ 2) 2 = Inr u \<longrightarrow>
         list_all (\<lambda>ev. is_Raised ev \<or> notebook_event L (tmap (\<lambda>v. v * 2 - 1) u) boundary_points ev) tr)
    \<and> (G = Some g \<longrightarrow>
         (\<exists>u. rand L (np_i ^ 2) 2 = Inr u \<and> x_i g = tmap (\<lambda>v. v * 2 - 1) u \<and> x_b g = boundary_points))"
  proof (cases r0)
    case (Inl e0)
    with run init have "r = Inl e0" "G = None" "tr = tr0" by (simp_all add: notebook_def)
    with tr0 post0 Inl ev0 show ?thesis by (auto simp add: ends_with_Inl)
  next
    case (Inr g0)
    with post0 obtain m u0 where g0: "rand L (np_i ^ 2) 2 = Inr u0"
      "x_i g0 = tmap (\<lambda>v. v * 2 - 1) u0" "x_b g0 = boundary_points"
      by (auto simp add: initial_def)
    obtain r1 g1 tr1 where cells: "cells L (g0, tr0) = (r1, g1, tr1)"
      by (cases "cells L (g0, tr0)") auto
    with run init Inr have res: "r = r1" "G = Some g1" "tr = tr1" by (simp_all add: notebook_def)
    have "sampled (x_i g0) (x_b g0) g0" by (simp add: sampled_def)
    from hoareD [OF cells_sampled this cells] obtain new where
      new: "tr1 = tr0 @ new" "list_all (\<lambda>ev. is_Raised ev \<or> notebook_event L (x_i g0) (x_b g0) ev) new"
      "ends_with r1 new"
      and post1: "case r1 of Inr a \<Rightarrow> sampled (x_i g0) (x_b g0) g1
          | Inl e \<Rightarrow> sampled (x_i g0) (x_b g0) g1 \<and> (step_calls_closure L \<longrightarrow> \<not> is_NameError e)"
      by blast
    from tr0(2) Inr new(3) have "ends_with r1 (tr0 @ new)" by (simp add: ends_with_no_later)
    moreover from post1 have "sampled (x_i g0) (x_b g0) g1" by (simp split: sum.splits)
    moreover from post1 have "step_calls_closure L \<longrightarrow> r1 = Inl e \<longrightarrow> \<not> is_NameError e" by auto
    moreover have "list_all (\<lambda>ev. is_Raised ev \<or> notebook_event L (x_i g0) (x_b g0) ev) (tr0 @ new)"
      using ev0 new(2) by simp
    ultimately show ?thesis
      using res new(1) g0 by (auto simp add: sampled_def)
  qed
  then show "ends_with r tr"
    and "step_calls_closure L \<Longrightarrow> r = Inl e \<Longrightarrow> \<not> is_NameError e"
    and "rand L (np_i ^ 2) 2 = Inr u \<Longrightarrow>
           list_all (\<lambda>ev. is_Raised ev \<or> notebook_event L (tmap (\<lambda>v. v * 2 - 1) u) boundary_points ev) tr"
    and "G = Some g \<Longrightarrow>
           \<exists>u. rand L (np_i ^ 2) 2 = Inr u \<and> x_i g = tmap (\<lambda>v. v * 2 - 1) u \<and> x_b g = boundary_points"
    by blast+
qed

lemma notebook_stage_run:
  assumes run: "notebook L = (r, G, tr)"
  shows "case r of Inr a \<Rightarrow> stages tr = notebook_stages | Inl e \<Rightarrow> stages tr \<in> set notebook_failures"
proof -
  obtain r0 s0 tr0 where init: "globals_init L ((), []) = (r0, s0, tr0)"
    by (cases "globals_init L ((), [])") auto
  from stage_runD [OF globals_init_stages init]
  have st0: "case r0 of Inr a \<Rightarrow> stages tr0 = [Model_constructed, Sampled (np_i ^ 2) 2]
      | Inl e \<Rightarrow> stages tr0 \<in> set [[Model_constructed], [Model_constructed, Sampled (np_i ^ 2) 2]]"
    by auto
  show ?thesis
  proof (cases r0)
    case (Inl e0)
    with run init have "r = Inl e0" "tr = tr0" by (simp_all add: notebook_def)
    with st0 Inl show ?thesis by (auto simp add: notebook_failures_def)
  next
    case (Inr g0)
    obtain r1 g1 tr1 where cells: "cells L (g0, tr0) = (r1, g1, tr1)"
      by (cases "cells L (g0, tr0)") auto
    with run init Inr have res: "r = r1" "tr = tr1" by (simp_all add: notebook_def)
    from stage_runD [OF cells_stages cells] obtain new where
      new: "tr1 = tr0 @ new"
      "case r1 of Inr a \<Rightarrow> stages new = fit_stages @ [Plotted] @ fix_stages @ fit_stages @ [Formula_extracted]
         | Inl e \<Rightarrow> stages new \<in> set cells_failures"
      by blast
    from st0 Inr have "stages tr0 = [Model_constructed, Sampled (np_i ^ 2) 2]" by simp
    with new res show ?thesis
      by (auto simp add: notebook_stages_def notebook_failures_def fix_stages_def split: sum.splits)
  qed
qed

lemma notebook_failures_prefixes: "list_all (\<lambda>st. prefix st notebook_stages) notebook_failures"
  by code_simp



subsection \<open>Runs on the concrete libraries\<close>


lemma toy_sol: "sol_fun [[0, 0]] = Inr [[0]]"
  by (simp add: sol_fun_def columns_def index_def bindE_def tmul_def broadcast2_def broadcast1_def tmap_def)

lemma toy_family_ops:
  assumes "L = toy \<or> L = unplottable \<or> L = lazy"
  shows "zero_grad L m = Inr m" "backward L m loss = Inr m" "update_grid_from_samples L m x = Inr m"
    "LBFGS L m = Inr 0" "forward L m x = Inr (map (\<lambda>row. [0]) x)"
    "jacobian L f x = ([x], Inr (case f x of Inl e \<Rightarrow> [] | Inr y \<Rightarrow> map (\<lambda>v. map (\<lambda>row. map (\<lambda>c. 0) row) x) y))"
    "fix_symbolic L m l i j name = Inr (m @ [(l, i, j, name)])" "symbolic_formula L m d = Inr (m, d)"
    "KAN L = Inr []" "rand L r c = Inr (replicate r (replicate c 0))"
  using assms by (auto simp add: toy_def unplottable_def lazy_def)


lemma toy_steps:
  "step toy opt cl m = ([m], Inr (m, Suc opt))" "step unplottable opt cl m = ([m], Inr (m, Suc opt))"
  "step lazy opt cl m = (if m = [] then [m] else [], Inr (m, Suc opt))"
  by (simp_all add: toy_def unplottable_def lazy_def)

lemma toy_residual: "(tsub [[0]] [[0]] :: unit exn + tensor2) = Inr [[0]]" "tmean (tsquare [[0]]) = 0"
  by (simp_all add: tsub_def broadcast2_def broadcast1_def bindE_def tmean_def tsquare_def tmap_def)


lemma idle_fit_body:
  assumes xi: "x_i g = [[0, 0]]" and m: "model g \<noteq> []"
    and p: "pde_loss g = Some p" and b: "bc_loss g = Some b"
  shows "fit_body lazy opt i (g, tr) = (Inr (Suc opt), g, tr @ idle_body_trace p b opt i)"
proof -
  have L: "lazy = toy \<or> lazy = unplottable \<or> lazy = lazy" by simp
  have st: "step lazy opt cl (model g) = ([], Inr (model g, Suc opt))" for cl
    using m by (simp add: toy_steps)
  show ?thesis
    by (simp add: fit_body_def grid_update_def report_def optimizer_step_apply st
        finish_step_def bindP_apply thenP_apply toy_family_ops [OF L] xi p b
        toy_residual toy_sol idle_body_trace_def log'_def)
qed

lemma unbound_fit_body:
  assumes xi: "x_i g = [[0, 0]]" and m: "model g \<noteq> []" and p: "pde_loss g = None"
  shows "fit_body lazy opt 0 (g, tr) =
     (Inl (NameError ''pde_loss''), g,
      tr @ [Iteration 0, Call_update_grid [[0, 0]], Call_step opt, Raised (NameError ''pde_loss'')])"
proof -
  have L: "lazy = toy \<or> lazy = unplottable \<or> lazy = lazy" by simp
  have st: "step lazy opt cl (model g) = ([], Inr (model g, Suc opt))" for cl
    using m by (simp add: toy_steps)
  show ?thesis
    by (simp add: fit_body_def grid_update_def report_def optimizer_step_apply st
        finish_step_def bindP_apply thenP_apply toy_family_ops [OF L] xi p
        toy_residual toy_sol log'_def)
qed


lemma idle_fit_loop:
  assumes xi: "x_i g = [[0, 0]]" and m: "model g \<noteq> []"
    and p: "pde_loss g = Some p" and b: "bc_loss g = Some b"
  shows "fit_loop lazy opt is (g, tr) = (Inr (), g, tr @ idle_loop_trace p b opt is)"
  by (induction "is" arbitrary: opt tr) (simp_all add: bindP_apply idle_fit_body [OF xi m p b])


lemma idle_fit:
  assumes xi: "x_i g = [[0, 0]]" and m: "model g \<noteq> []"
    and p: "pde_loss g = Some p" and b: "bc_loss g = Some b"
  shows "fit lazy (g, tr) = (Inr (), g, tr @ Call_LBFGS # idle_loop_trace p b 0 [0..<steps])"
proof -
  have L: "lazy = toy \<or> lazy = unplottable \<or> lazy = lazy" by simp
  show ?thesis
    by (simp add: fit_def bindP_apply idle_fit_loop [OF xi m p b] toy_family_ops [OF L])
qed

lemma upt_steps: "[0..<steps] = 0 # [1..<steps]"
  by (simp add: steps_def upt_rec)

lemma unbound_fit:
  assumes xi: "x_i g = [[0, 0]]" and m: "model g \<noteq> []" and p: "pde_loss g = None"
  shows "fit lazy (g, tr) =
     (Inl (NameError ''pde_loss''), g,
      tr @ [Call_LBFGS, Iteration 0, Call_update_grid [[0, 0]], Call_step 0, Raised (NameError ''pde_loss'')])"
proof -
  have L: "lazy = toy \<or> lazy = unplottable \<or> lazy = lazy" by simp
  show ?thesis
    by (simp add: fit_def upt_steps bindP_apply unbound_fit_body [OF xi m p] toy_family_ops [OF L])
qed


subsection \<open>What the cells and the parts of the loop do, call by call\<close>


lemma globals_init_apply:
  "globals_init L ((), []) =
     (case KAN L of
        Inl e \<Rightarrow> (Inl (LibraryError e), (), [Call_KAN, Raised (LibraryError e)])
      | Inr m \<Rightarrow>
          (case rand L (np_i ^ 2) 2 of
             Inl e \<Rightarrow> (Inl (LibraryError e), (), [Call_KAN, Call_rand (np_i ^ 2) 2, Raised (LibraryError e)])
           | Inr u \<Rightarrow> (Inr (initial m u), (), [Call_KAN, Call_rand (np_i ^ 2) 2])))"
  unfolding globals_init_def interior_def boundary_eq
  by (simp add: sampling_mode_def bindP_apply initial_def boundary_points_def split: sum.splits)

lemma notebook_apply:
  "notebook L =
     (case KAN L of
        Inl e \<Rightarrow> (Inl (LibraryError e), None, [Call_KAN, Raised (LibraryError e)])
      | Inr m \<Rightarrow>
          (case rand L (np_i ^ 2) 2 of
             Inl e \<Rightarrow> (Inl (LibraryError e), None, [Call_KAN, Call_rand (np_i ^ 2) 2, Raised (LibraryError e)])
           | Inr u \<Rightarrow>
               (case cells L (initial m u, [Call_KAN, Call_rand (np_i ^ 2) 2]) of
                  (r, g, tr) \<Rightarrow> (r, Some g, tr))))"
  by (simp add: notebook_def globals_init_apply split: sum.splits)

lemma cell_plot_apply:
  "cell_plot L (g, tr) =
     (case plot L (model g) 10 of
        Inl e \<Rightarrow> (Inl (LibraryError e), g, tr @ [Call_plot, Raised (LibraryError e)])
      | Inr u \<Rightarrow> (Inr (), g, tr @ [Call_plot]))"
  by (simp add: cell_plot_def bindP_apply split: sum.splits)

lemma cell_formula_apply:
  "cell_formula L (g, tr) =
     (case symbolic_formula L (model g) 5 of
        Inl e \<Rightarrow> (Inl (LibraryError e), g, tr @ [Call_symbolic_formula, Raised (LibraryError e)])
      | Inr (f, v) \<Rightarrow> (Inr (), g\<lparr>formula := Some f, var := Some v\<rparr>, tr @ [Call_symbolic_formula]))"
  by (simp add: cell_formula_def bindP_apply split: sum.splits prod.splits)

lemma thenP_assoc: "thenP (thenP p q) k = thenP p (thenP q k)"
  by (rule ext) (auto simp add: thenP_def bindP_def split: prod.splits sum.splits)

lemma thenP_ret: "thenP p (ret ()) = p"
  by (rule ext) (auto simp add: thenP_def bindP_def ret_def split: prod.splits sum.splits)

lemma cell_fix_units:
  "cell_fix L =
     forP fixed_units (\<lambda>(l, i, j, name).
       update_model (Call_fix_symbolic l i j name) (\<lambda>m. fix_symbolic L m l i j name))"
  by (simp add: cell_fix_def upt_0_2 fixed_units_def thenP_assoc thenP_ret)

lemma fix_units_return:
  assumes "fix_units L us (model g) = Inr m"
  shows "forP us (\<lambda>(l, i, j, name).
       update_model (Call_fix_symbolic l i j name) (\<lambda>m. fix_symbolic L m l i j name)) (g, tr)
     = (Inr (), g\<lparr>model := m\<rparr>, tr @ fix_calls us)"
  using assms
proof (induction us arbitrary: g tr)
  case Nil
  then show ?case by (simp add: fix_calls_def)
next
  case (Cons u us)
  obtain l i j name where u: "u = (l, i, j, name)" by (cases u) auto
  from Cons.prems obtain m' where m': "fix_symbolic L (model g) l i j name = Inr m'"
    and rest: "fix_units L us m' = Inr m"
    by (auto simp add: u split: sum.splits)
  from rest have "fix_units L us (model (g\<lparr>model := m'\<rparr>)) = Inr m" by simp
  from Cons.IH [OF this, of "tr @ [Call_fix_symbolic l i j name]"] m'
  show ?case by (simp add: u thenP_apply fix_calls_def)
qed

lemma fix_units_raise:
  assumes "fix_units L us (model g) = Inl e"
  shows "\<exists>g' k. k < length us \<and> forP us (\<lambda>(l, i, j, name).
       update_model (Call_fix_symbolic l i j name) (\<lambda>m. fix_symbolic L m l i j name)) (g, tr)
     = (Inl (LibraryError e), g', tr @ fix_calls (take (Suc k) us) @ [Raised (LibraryError e)])"
  using assms
proof (induction us arbitrary: g tr)
  case Nil
  then show ?case by simp
next
  case (Cons u us)
  obtain l i j name where u: "u = (l, i, j, name)" by (cases u) auto
  show ?case
  proof (cases "fix_symbolic L (model g) l i j name")
    case (Inl e')
    with Cons.prems have "e' = e" by (simp add: u)
    with Inl have "forP (u # us) (\<lambda>(l, i, j, name).
       update_model (Call_fix_symbolic l i j name) (\<lambda>m. fix_symbolic L m l i j name)) (g, tr)
     = (Inl (LibraryError e), g, tr @ fix_calls (take (Suc 0) (u # us)) @ [Raised (LibraryError e)])"
      by (simp add: u thenP_apply fix_calls_def)
    then show ?thesis by (intro exI [of _ g] exI [of _ 0]) simp
  next
    case (Inr m')
    with Cons.prems have "fix_units L us (model (g\<lparr>model := m'\<rparr>)) = Inl e" by (simp add: u)
    from Cons.IH [OF this, of "tr @ [Call_fix_symbolic l i j name]"] obtain g' k where
      k: "k < length us" and run: "forP us (\<lambda>(l, i, j, name).
       update_model (Call_fix_symbolic l i j name) (\<lambda>m. fix_symbolic L m l i j name))
         (g\<lparr>model := m'\<rparr>, tr @ [Call_fix_symbolic l i j name])
       = (Inl (LibraryError e), g', (tr @ [Call_fix_symbolic l i j name]) @ fix_calls (take (Suc k) us)
            @ [Raised (LibraryError e)])"
      by blast
    from run Inr have "forP (u # us) (\<lambda>(l, i, j, name).
       update_model (Call_fix_symbolic l i j name) (\<lambda>m. fix_symbolic L m l i j name)) (g, tr)
     = (Inl (LibraryError e), g', tr @ fix_calls (take (Suc (Suc k)) (u # us)) @ [Raised (LibraryError e)])"
      by (simp add: u thenP_apply fix_calls_def)
    with k show ?thesis by (intro exI [of _ g'] exI [of _ "Suc k"]) simp
  qed
qed

lemma cell_fix_returns:
  assumes "fix_units L fixed_units (model g) = Inr m"
  shows "cell_fix L (g, tr) = (Inr (), g\<lparr>model := m\<rparr>, tr @ fix_calls fixed_units)"
  unfolding cell_fix_units by (rule fix_units_return [OF assms])

lemma cell_fix_raises:
  assumes "fix_units L fixed_units (model g) = Inl e"
  shows "\<exists>g' k. k < length fixed_units \<and> cell_fix L (g, tr)
      = (Inl (LibraryError e), g', tr @ fix_calls (take (Suc k) fixed_units) @ [Raised (LibraryError e)])"
  unfolding cell_fix_units by (rule fix_units_raise [OF assms])

lemma cell_fix_returned:
  assumes "cell_fix L (g, tr) = (Inr u, g', tr')"
  shows "\<exists>m. fix_units L fixed_units (model g) = Inr m \<and> g' = g\<lparr>model := m\<rparr>
           \<and> tr' = tr @ fix_calls fixed_units"
proof (cases "fix_units L fixed_units (model g)")
  case (Inl e)
  from cell_fix_raises [OF this, of tr] assms show ?thesis by auto
next
  case (Inr m)
  from cell_fix_returns [OF this, of tr] assms show ?thesis by (simp add: Inr)
qed

lemma fit_apply:
  "fit L (g, tr) =
     (case LBFGS L (model g) of
        Inl e \<Rightarrow> (Inl (LibraryError e), g, tr @ [Call_LBFGS, Raised (LibraryError e)])
      | Inr opt \<Rightarrow> fit_loop L opt [0..<steps] (g, tr @ [Call_LBFGS]))"
  by (simp add: fit_def bindP_apply split: sum.splits)

lemma grid_update_apply:
  "grid_update L i (g, tr) =
     (if i mod 5 = 0 \<and> i < 50
      then (case update_grid_from_samples L (model g) (x_i g) of
              Inl e \<Rightarrow> (Inl (LibraryError e), g, tr @ [Call_update_grid (x_i g), Raised (LibraryError e)])
            | Inr m \<Rightarrow> (Inr (), g\<lparr>model := m\<rparr>, tr @ [Call_update_grid (x_i g)]))
      else (Inr (), g, tr))"
  by (simp add: grid_update_def bindP_apply split: sum.splits)

subsection \<open>What an invocation of the closure computes\<close>




subsection \<open>Tensors of one and of two columns\<close>

lemma bindE_Inr: "bindE r f = Inr b \<Longrightarrow> \<exists>a. r = Inr a \<and> f a = Inr b"
  by (cases r) (simp_all add: bindE_def)

lemma mapE_Inr_iff: "(mapE f xs = Inr ys) = list_all2 (\<lambda>x y. f x = Inr y) xs ys"
proof (induction xs arbitrary: ys)
  case Nil
  show ?case by auto
next
  case (Cons x xs)
  show ?case
    by (cases ys; cases "f x"; cases "mapE f xs") (auto simp add: bindE_def Cons.IH [symmetric])
qed

lemma list_all2_graph:
  "list_all2 R xs ys \<Longrightarrow> (\<And>x y. R x y \<Longrightarrow> y = h x) \<Longrightarrow> ys = map h xs"
  by (induction rule: list_all2_induct) auto

lemma index_Inr: "index xs j = Inr v \<Longrightarrow> 0 \<le> j \<Longrightarrow> v = xs ! nat j"
  by (auto simp add: index_def split: if_splits)

lemma columns_Inr:
  assumes "columns x j = Inr c" "0 \<le> j"
  shows "c = map (\<lambda>row. [row ! nat j]) x"
proof -
  from assms(1) have "list_all2 (\<lambda>row y. bindE (index row j) (\<lambda>v. Inr [v]) = (Inr y :: 'a exn + real list)) x c"
    by (simp add: columns_def mapE_Inr_iff)
  then show ?thesis
    by (rule list_all2_graph) (auto dest!: bindE_Inr index_Inr [OF _ assms(2)])
qed

lemma broadcast_columns:
  "mapE (\<lambda>(r, r'). broadcast1 f r r') (zip (map (\<lambda>p. [u p]) xs) (map (\<lambda>p. [v p]) xs))
     = Inr (map (\<lambda>p. [f (u p) (v p)]) xs)"
  by (induction xs) (simp_all add: broadcast1_def bindE_def)

lemma broadcast2_columns:
  "broadcast2 f (map (\<lambda>p. [u p]) xs) (map (\<lambda>p. [v p]) xs) = Inr (map (\<lambda>p. [f (u p) (v p)]) xs)"
  by (simp add: broadcast2_def broadcast_columns)

lemma sol_fun_Inr:
  assumes "sol_fun x = Inr s"
  shows "s = map (\<lambda>p. [solution p]) x"
proof -
  from assms obtain x0 x1 where c: "columns x 0 = (Inr x0 :: 'a exn + tensor2)"
    "columns x 1 = (Inr x1 :: 'a exn + tensor2)"
    and m: "tmul (tmap sin (tmap (\<lambda>v. pi * v) x0)) (tmap sin (tmap (\<lambda>v. pi * v) x1)) = (Inr s :: 'a exn + tensor2)"
    unfolding sol_fun_def by (blast dest!: bindE_Inr)
  from c have "x0 = map (\<lambda>row. [row ! 0]) x" "x1 = map (\<lambda>row. [row ! 1]) x"
    by (auto dest: columns_Inr)
  with m show ?thesis
    by (simp add: tmul_def tmap_def comp_def broadcast2_columns solution_def)
qed

lemma source_fun_Inr:
  assumes "source_fun x = Inr s"
  shows "s = map (\<lambda>p. [source_term p]) x"
proof -
  from assms obtain x0 x1 where c: "columns x 0 = (Inr x0 :: 'a exn + tensor2)"
    "columns x 1 = (Inr x1 :: 'a exn + tensor2)"
    and m: "tmul (tmap (\<lambda>v. (- 2 * pi ^ 2) * v) (tmap sin (tmap (\<lambda>v. pi * v) x0)))
              (tmap sin (tmap (\<lambda>v. pi * v) x1)) = (Inr s :: 'a exn + tensor2)"
    unfolding source_fun_def by (blast dest!: bindE_Inr)
  from c have "x0 = map (\<lambda>row. [row ! 0]) x" "x1 = map (\<lambda>row. [row ! 1]) x"
    by (auto dest: columns_Inr)
  with m show ?thesis
    by (simp add: tmul_def tmap_def comp_def broadcast2_columns source_term_def)
qed




lemma one_column:
  assumes "\<forall>row \<in> set y. length row = 1"
  shows "y = map (\<lambda>b. [y ! b ! 0]) [0..<length y]"
proof (rule nth_equalityI)
  show "length y = length (map (\<lambda>b. [y ! b ! 0]) [0..<length y])" by simp
next
  fix i assume i: "i < length y"
  with assms have "length (y ! i) = 1" by simp
  then have "y ! i = [y ! i ! 0]" by (cases "y ! i") simp_all
  with i show "y ! i = map (\<lambda>b. [y ! b ! 0]) [0..<length y] ! i" by simp
qed







lemma length_transpose_rows:
  assumes "x \<noteq> []" "\<forall>p \<in> set x. length p = n"
  shows "length (transpose x) = n"
proof -
  have "transpose x = map (\<lambda>i. map (\<lambda>j. x ! j ! i) [0..<length x]) [0..<n]"
    by (rule transpose_rectangle) (use assms in simp_all)
  then show ?thesis by simp
qed


subsection \<open>Derivatives of a model that is a function of the point\<close>




















subsection \<open>The loss\<close>












subsection \<open>The schedule of the grid updates\<close>



end
